theory Spec2Isabelle
  imports Main "HOL-Library.Sublist" "HOL-Library.AList"
begin

section \<open>Exceptions\<close>

text \<open>
  Every exception class that the modelled code raises is a constructor; a function that can
  raise returns \<open>error + 'a\<close> with \<open>Inl\<close> for the raised exception.  The message of a
  \<open>DataError\<close> is kept as a tag (with the numbers the f-string interpolates), so that two
  \<open>DataError\<close>s raised at different places stay distinguishable.
\<close>

datatype data_error =
    InvalidDateValue
  | InvalidDatetimeValue
  | UnsupportedDataType
  | UnsupportedParameterType
  | NotEnoughParameters nat
  | TooManyParameters nat nat
  | InvalidQueryDataFormat
  | NoRowsToFetch

datatype error =
    CursorClosedError
  | QueryNotRunError
  | ConnectionClosedError
  | DataError data_error
  | NotSupportedError
  | OperationalError string
  | ProgrammingError string
  | FireboltDatabaseError
  | EngineNotRunningError
  | HTTPStatusError nat
  | AssertionError
  | TypeError
  | ValueError
  | KeyError string
  | IndexError
  | OverflowError
  | OtherError nat
  | CancelledError
  | KeyboardInterrupt

text \<open>
  All of them are subclasses of \<open>Exception\<close> but the last two: \<open>KeyboardInterrupt\<close> derives
  from \<open>BaseException\<close> only, and so does \<open>asyncio.CancelledError\<close> since Python 3.8.  An
  \<open>except Exception\<close> clause catches the exceptions below and no other.
\<close>

fun is_Exception :: "error \<Rightarrow> bool" where
  "is_Exception CancelledError = False"
| "is_Exception KeyboardInterrupt = False"
| "is_Exception e = True"

section \<open>Column types (\<open>_types.py\<close>)\<close>

text \<open>
  A column type is one of the Python types of \<open>_col_types\<close> or an \<open>ARRAY\<close> object.
  Equality of \<open>ARRAY\<close> objects is structural (\<open>ARRAY.__eq__\<close> compares the subtypes), as
  is equality of the datatype.
\<close>

datatype ctype =
    T_int | T_float | T_str | T_datetime | T_date | T_bool | T_list | T_NoneType
  | ARRAY ctype

text \<open>\<open>ARRAY.__init__\<close>: the subtype is a column type other than \<open>list\<close>, or an \<open>ARRAY\<close>.\<close>

definition ARRAY_init :: "ctype \<Rightarrow> error + ctype" where
  "ARRAY_init subtype = (if subtype \<noteq> T_list then Inr (ARRAY subtype) else Inl AssertionError)"

text \<open>\<open>str\<close> of a column type: Python's own text for a class, \<open>ARRAY.__str__\<close> for an array.\<close>

fun str_ctype :: "ctype \<Rightarrow> string" where
  "str_ctype T_int = ''<class 'int'>''"
| "str_ctype T_float = ''<class 'float'>''"
| "str_ctype T_str = ''<class 'str'>''"
| "str_ctype T_datetime = ''<class 'datetime.datetime'>''"
| "str_ctype T_date = ''<class 'datetime.date'>''"
| "str_ctype T_bool = ''<class 'bool'>''"
| "str_ctype T_list = ''<class 'list'>''"
| "str_ctype T_NoneType = ''<class 'NoneType'>''"
| "str_ctype (ARRAY subtype) = ''Array('' @ str_ctype subtype @ '')''"

definition ARRAY_prefix :: string where
  "ARRAY_prefix = ''Array(''"

definition NULLABLE_PREFIX :: string where
  "NULLABLE_PREFIX = ''Nullable(''"

text \<open>
  The enum \<open>_InternalType\<close> with its \<open>python_type\<close>: looking a name up that is not a
  member raises \<open>ValueError\<close> in the source, here \<open>None\<close>.
\<close>

definition InternalType_python_type :: "(string \<times> ctype) list" where
  "InternalType_python_type =
     [(''Int8'', T_int), (''UInt8'', T_int), (''Int16'', T_int), (''UInt16'', T_int),
      (''Int32'', T_int), (''UInt32'', T_int), (''Int64'', T_int), (''UInt64'', T_int),
      (''Float32'', T_float), (''Float64'', T_float), (''String'', T_str),
      (''Date'', T_date), (''DateTime'', T_datetime), (''Nothing'', T_str)]"

text \<open>The slice \<open>s[n:-1]\<close> for \<open>n \<ge> 0\<close>.\<close>

definition slice_to_last :: "nat \<Rightarrow> string \<Rightarrow> string" where
  "slice_to_last n s = butlast (drop n s)"

text \<open>
  \<open>parse_type\<close>.  The argument is a string by its type, so the source's first check
  (\<open>not isinstance(raw_type, str)\<close>) has no branch here.
\<close>

function parse_type :: "string \<Rightarrow> error + ctype" where
  "parse_type raw_type =
     (if prefix ARRAY_prefix raw_type \<and> suffix '')'' raw_type then
        (case parse_type (slice_to_last (length ARRAY_prefix) raw_type) of
           Inl e \<Rightarrow> Inl e
         | Inr subtype \<Rightarrow> ARRAY_init subtype)
      else if prefix NULLABLE_PREFIX raw_type \<and> suffix '')'' raw_type then
        parse_type (slice_to_last (length NULLABLE_PREFIX) raw_type)
      else (case map_of InternalType_python_type raw_type of
              Some t \<Rightarrow> Inr t
            | None \<Rightarrow> Inr T_str))"
  by pat_completeness auto
termination
proof (relation "measure length")
  show "wf (measure (length :: string \<Rightarrow> nat))" by simp
next
  fix raw_type :: string
  assume "prefix ARRAY_prefix raw_type \<and> suffix '')'' raw_type"
  then have "raw_type \<noteq> []" by (auto simp: ARRAY_prefix_def)
  then show "(slice_to_last (length ARRAY_prefix) raw_type, raw_type) \<in> measure length"
    by (cases raw_type) (simp_all add: slice_to_last_def)
next
  fix raw_type :: string
  assume "prefix NULLABLE_PREFIX raw_type \<and> suffix '')'' raw_type"
  then have "raw_type \<noteq> []" by (auto simp: NULLABLE_PREFIX_def)
  then show "(slice_to_last (length NULLABLE_PREFIX) raw_type, raw_type) \<in> measure length"
    by (cases raw_type) (simp_all add: slice_to_last_def)
qed

declare parse_type.simps [simp del]

text \<open>\<open>parse_type(str(parse_type(x)))\<close>, the composition of the re-serialisation property.\<close>

definition reparse_type :: "string \<Rightarrow> error + ctype" where
  "reparse_type x =
     (case parse_type x of Inl e \<Rightarrow> Inl e | Inr t \<Rightarrow> parse_type (str_ctype t))"

text \<open>The same array nesting with \<open>str\<close> at the base.\<close>

fun str_based :: "ctype \<Rightarrow> ctype" where
  "str_based (ARRAY subtype) = ARRAY (str_based subtype)"
| "str_based _ = T_str"

fun base_type :: "ctype \<Rightarrow> ctype" where
  "base_type (ARRAY subtype) = base_type subtype"
| "base_type t = t"

section \<open>Values and the Python primitives used on them\<close>

text \<open>
  Floating-point numbers, decimals, dates and datetimes are carried as data but never
  computed with: a float is a mantissa with a binary exponent, an infinity or NaN, a decimal
  is a mantissa with a decimal exponent, a
  datetime is a date, a time of day (hour, minute, second, microsecond) and, when it is
  timezone-aware, its offset from UTC in seconds.  The library functions on them
  (conversions, parsing, printing) are fields of the record \<open>py\<close>, which every function that
  calls one of them takes as its first argument.  The SQL tokenizer (\<open>sqlparse.parse\<close>) is
  external as well and lives in the same record, with the interpreter's limit on the number
  of digits of an \<open>int\<close> that \<open>str\<close> prints.
\<close>

datatype pyfloat = Finite int int | Infinity bool | NaN

datatype pydecimal = Decimal int int

datatype pydate = Date int nat nat

datatype pydatetime = DateTime pydate nat nat nat nat "int option"

text \<open>\<open>datetime.date()\<close>\<close>

fun datetime_date :: "pydatetime \<Rightarrow> pydate" where
  "datetime_date (DateTime d h m s us tz) = d"

text \<open>
  \<open>value.astimezone(timezone.utc)\<close> of a timezone-aware value subtracts the offset and
  raises \<open>OverflowError\<close> when the result is before \<open>datetime.min\<close> (year 1) or after
  \<open>datetime.max\<close> (year 9999).  An offset is less than a day, so only a value on the first
  or on the last day can overflow.
\<close>

fun microsecond_of_day :: "pydatetime \<Rightarrow> int" where
  "microsecond_of_day (DateTime d h m s us tz) =
     (int h * 3600 + int m * 60 + int s) * 1000000 + int us"

fun astimezone_utc_overflows :: "pydatetime \<Rightarrow> bool" where
  "astimezone_utc_overflows (DateTime d h m s us None) = False"
| "astimezone_utc_overflows (DateTime d h m s us (Some offset)) =
     (let utc = microsecond_of_day (DateTime d h m s us (Some offset)) - offset * 1000000
      in (d = Date 1 1 1 \<and> utc < 0) \<or> (d = Date 9999 12 31 \<and> 86400 * 1000000 \<le> utc))"

text \<open>\<open>RawColType\<close>: a value as decoded from the JSON body.\<close>

datatype raw = R_None | R_bool bool | R_int int | R_float pyfloat | R_str string
  | R_list "raw list"

text \<open>\<open>ColType\<close>: a value as returned by the fetch methods.\<close>

datatype col = C_None | C_bool bool | C_int int | C_float pyfloat | C_str string
  | C_datetime pydatetime | C_date pydate | C_list "col list"

text \<open>
  \<open>ParameterType\<close>: a value given for a placeholder.  \<open>P_other\<close> stands for a value of any
  type that \<open>format_value\<close> does not know.
\<close>

datatype param = P_bool bool | P_int int | P_float pyfloat | P_Decimal pydecimal
  | P_str string | P_datetime pydatetime | P_date pydate | P_None | P_seq "param list"
  | P_other

text \<open>
  A token of \<open>sqlparse\<close>: a leaf with its token type and text, or a \<open>TokenList\<close> (a
  \<open>Statement\<close> is one).  Of the token types only \<open>Name.Placeholder\<close> and \<open>Text\<close> are told
  apart.
\<close>

datatype ttype = Placeholder | Text | OtherType

datatype token = Token ttype string | TokenList "token list"

record py =
  int_of_float :: "pyfloat \<Rightarrow> error + int"
  int_of_str :: "string \<Rightarrow> error + int"
  float_of_int :: "int \<Rightarrow> error + pyfloat"
  float_of_str :: "string \<Rightarrow> error + pyfloat"
  str_of_float :: "pyfloat \<Rightarrow> string"
  str_of_Decimal :: "pydecimal \<Rightarrow> string"
  str_of_list :: "raw list \<Rightarrow> error + string"
  parse_datetime :: "string \<Rightarrow> error + pydatetime"
  datetime_utc_strftime :: "pydatetime \<Rightarrow> string"
  date_isoformat :: "pydate \<Rightarrow> string"
  parse_sql :: "string \<Rightarrow> token list"
  int_max_str_digits :: nat

text \<open>\<open>str\<close> of an \<open>int\<close>: its decimal digits, with a sign when negative.\<close>

fun str_nat :: "nat \<Rightarrow> string" where
  "str_nat n =
     (if n < 10 then [''0123456789'' ! n]
      else str_nat (n div 10) @ [''0123456789'' ! (n mod 10)])"

declare str_nat.simps [simp del]

definition str_int :: "int \<Rightarrow> string" where
  "str_int i = (if i < 0 then ''-'' @ str_nat (nat (- i)) else str_nat (nat i))"

text \<open>
  Since Python 3.11 \<open>str\<close> of an \<open>int\<close> raises \<open>ValueError\<close> when the number has more
  decimal digits than \<open>sys.get_int_max_str_digits()\<close> (4300 unless changed); a limit of 0
  is no limit, as in the interpreters before.
\<close>

definition py_str_int :: "py \<Rightarrow> int \<Rightarrow> error + string" where
  "py_str_int p i =
     (if 0 < int_max_str_digits p \<and> int_max_str_digits p < length (str_nat (nat \<bar>i\<bar>))
      then Inl ValueError
      else Inr (str_int i))"

definition int_of_bool :: "bool \<Rightarrow> int" where
  "int_of_bool b = (if b then 1 else 0)"

text \<open>\<open>int(value)\<close>, \<open>str(value)\<close> and \<open>float(value)\<close> on a raw value other than \<open>None\<close>.\<close>

fun py_int :: "py \<Rightarrow> raw \<Rightarrow> error + int" where
  "py_int p (R_bool b) = Inr (int_of_bool b)"
| "py_int p (R_int i) = Inr i"
| "py_int p (R_float f) = int_of_float p f"
| "py_int p (R_str s) = int_of_str p s"
| "py_int p (R_list its) = Inl TypeError"
| "py_int p R_None = Inl TypeError"

fun py_str :: "py \<Rightarrow> raw \<Rightarrow> error + string" where
  "py_str p (R_bool b) = Inr (if b then ''True'' else ''False'')"
| "py_str p (R_int i) = py_str_int p i"
| "py_str p (R_float f) = Inr (str_of_float p f)"
| "py_str p (R_str s) = Inr s"
| "py_str p (R_list its) = str_of_list p its"
| "py_str p R_None = Inr ''None''"

fun py_float :: "py \<Rightarrow> raw \<Rightarrow> error + pyfloat" where
  "py_float p (R_bool b) = float_of_int p (int_of_bool b)"
| "py_float p (R_int i) = float_of_int p i"
| "py_float p (R_float f) = Inr f"
| "py_float p (R_str s) = float_of_str p s"
| "py_float p (R_list its) = Inl TypeError"
| "py_float p R_None = Inl TypeError"

text \<open>A list comprehension whose element expression can raise: the first exception wins.\<close>

fun map_raise :: "('a \<Rightarrow> error + 'b) \<Rightarrow> 'a list \<Rightarrow> error + 'b list" where
  "map_raise f [] = Inr []"
| "map_raise f (x # xs) =
     (case f x of
        Inl e \<Rightarrow> Inl e
      | Inr y \<Rightarrow> (case map_raise f xs of Inl e \<Rightarrow> Inl e | Inr ys \<Rightarrow> Inr (y # ys)))"

section \<open>\<open>parse_value\<close>\<close>

text \<open>
  The equations follow the order of the source's tests: \<open>None\<close> first, then the types
  \<open>int\<close>, \<open>str\<close>, \<open>float\<close>, then \<open>date\<close>, \<open>datetime\<close>, \<open>ARRAY\<close> (whose only check of the
  value is an \<open>assert\<close>), and the final \<open>raise DataError\<close>.
\<close>

fun parse_value :: "py \<Rightarrow> raw \<Rightarrow> ctype \<Rightarrow> error + col"
  and parse_items :: "py \<Rightarrow> raw list \<Rightarrow> ctype \<Rightarrow> error + col list" where
  "parse_value p R_None ctype = Inr C_None"
| "parse_value p v T_int = (case py_int p v of Inl e \<Rightarrow> Inl e | Inr i \<Rightarrow> Inr (C_int i))"
| "parse_value p v T_str = (case py_str p v of Inl e \<Rightarrow> Inl e | Inr s \<Rightarrow> Inr (C_str s))"
| "parse_value p v T_float =
     (case py_float p v of Inl e \<Rightarrow> Inl e | Inr f \<Rightarrow> Inr (C_float f))"
| "parse_value p (R_str s) T_date =
     (case parse_datetime p s of Inl e \<Rightarrow> Inl e | Inr d \<Rightarrow> Inr (C_date (datetime_date d)))"
| "parse_value p v T_date = Inl (DataError InvalidDateValue)"
| "parse_value p (R_str s) T_datetime =
     (case parse_datetime p s of Inl e \<Rightarrow> Inl e | Inr d \<Rightarrow> Inr (C_datetime d))"
| "parse_value p v T_datetime = Inl (DataError InvalidDatetimeValue)"
| "parse_value p (R_list its) (ARRAY subtype) =
     (case parse_items p its subtype of Inl e \<Rightarrow> Inl e | Inr vs \<Rightarrow> Inr (C_list vs))"
| "parse_value p v (ARRAY subtype) = Inl AssertionError"
| "parse_value p v ctype = Inl (DataError UnsupportedDataType)"
| "parse_items p [] subtype = Inr []"
| "parse_items p (it # its) subtype =
     (case parse_value p it subtype of
        Inl e \<Rightarrow> Inl e
      | Inr v \<Rightarrow> (case parse_items p its subtype of Inl e \<Rightarrow> Inl e | Inr vs \<Rightarrow> Inr (v # vs)))"

section \<open>\<open>format_value\<close>, \<open>format_statement\<close>, \<open>split_format_sql\<close>\<close>

text \<open>\<open>escape_chars.get(c, c)\<close>\<close>

definition escape_char :: "char \<Rightarrow> string" where
  "escape_char c =
     (if c = CHR 0x00 then [CHR 0x5C, CHR ''0'']
      else if c = CHR 0x5C then [CHR 0x5C, CHR 0x5C]
      else if c = CHR 0x27 then [CHR 0x5C, CHR 0x27]
      else [c])"

text \<open>\<open>sep.join(strs)\<close>\<close>

fun join :: "string \<Rightarrow> string list \<Rightarrow> string" where
  "join sep [] = []"
| "join sep [s] = s"
| "join sep (s # t # ss) = s @ sep @ join sep (t # ss)"

text \<open>
  \<open>format_value\<close>; a \<open>datetime\<close> is tested before a \<open>date\<close>, of which it is a subclass.
  A \<open>bool\<close> and an \<open>int\<close> are printed with \<open>str\<close>, which can raise \<open>ValueError\<close>; a
  timezone-aware \<open>datetime\<close> is converted to UTC first, which can raise \<open>OverflowError\<close>;
  \<open>datetime_utc_strftime\<close> is \<open>strftime('%Y-%m-%d %H:%M:%S')\<close> of the value, converted when it
  is timezone-aware.  None of these exceptions is caught.
\<close>

fun format_value :: "py \<Rightarrow> param \<Rightarrow> error + string"
  and format_values :: "py \<Rightarrow> param list \<Rightarrow> error + string list" where
  "format_value p (P_bool b) = py_str_int p (int_of_bool b)"
| "format_value p (P_int i) = py_str_int p i"
| "format_value p (P_float f) = Inr (str_of_float p f)"
| "format_value p (P_Decimal d) = Inr (str_of_Decimal p d)"
| "format_value p (P_str s) = Inr ([CHR 0x27] @ concat (map escape_char s) @ [CHR 0x27])"
| "format_value p (P_datetime d) =
     (if astimezone_utc_overflows d then Inl OverflowError
      else Inr ([CHR 0x27] @ datetime_utc_strftime p d @ [CHR 0x27]))"
| "format_value p (P_date d) = Inr ([CHR 0x27] @ date_isoformat p d @ [CHR 0x27])"
| "format_value p P_None = Inr ''NULL''"
| "format_value p (P_seq its) =
     (case format_values p its of Inl e \<Rightarrow> Inl e | Inr strs \<Rightarrow> Inr (''['' @ join '', '' strs @ '']''))"
| "format_value p P_other = Inl (DataError UnsupportedParameterType)"
| "format_values p [] = Inr []"
| "format_values p (it # its) =
     (case format_value p it of
        Inl e \<Rightarrow> Inl e
      | Inr s \<Rightarrow> (case format_values p its of Inl e \<Rightarrow> Inl e | Inr ss \<Rightarrow> Inr (s # ss)))"

text \<open>\<open>str\<close> of a token: its text; of a \<open>TokenList\<close>: the texts of its leaves, in order.\<close>

fun str_token :: "token \<Rightarrow> string"
  and str_tokens :: "token list \<Rightarrow> string" where
  "str_token (Token tt v) = v"
| "str_token (TokenList tokens) = str_tokens tokens"
| "str_tokens [] = []"
| "str_tokens (t # ts) = str_token t @ str_tokens ts"

text \<open>
  \<open>process_token\<close>, the closure inside \<open>format_statement\<close>; the \<open>nonlocal idx\<close> is passed in
  and returned.
\<close>

fun process_token :: "py \<Rightarrow> param list \<Rightarrow> token \<Rightarrow> nat \<Rightarrow> error + token \<times> nat"
  and process_tokens :: "py \<Rightarrow> param list \<Rightarrow> token list \<Rightarrow> nat \<Rightarrow> error + token list \<times> nat"
  where
  "process_token p parameters (Token tt v) idx =
     (if tt = Placeholder then
        (if idx \<ge> length parameters then
           Inl (DataError (NotEnoughParameters (length parameters)))
         else (case format_value p (parameters ! idx) of
                 Inl e \<Rightarrow> Inl e
               | Inr formatted \<Rightarrow> Inr (Token Text formatted, idx + 1)))
      else Inr (Token tt v, idx))"
| "process_token p parameters (TokenList tokens) idx =
     (case process_tokens p parameters tokens idx of
        Inl e \<Rightarrow> Inl e
      | Inr (ts, idx') \<Rightarrow> Inr (TokenList ts, idx'))"
| "process_tokens p parameters [] idx = Inr ([], idx)"
| "process_tokens p parameters (t # ts) idx =
     (case process_token p parameters t idx of
        Inl e \<Rightarrow> Inl e
      | Inr (t', idx') \<Rightarrow>
          (case process_tokens p parameters ts idx' of
             Inl e \<Rightarrow> Inl e
           | Inr (ts', idx'') \<Rightarrow> Inr (t' # ts', idx'')))"

text \<open>\<open>s.rstrip(";")\<close> removes every trailing semicolon.\<close>

definition rstrip_semicolon :: "string \<Rightarrow> string" where
  "rstrip_semicolon s = rev (dropWhile (\<lambda>c. c = CHR '';'') (rev s))"

text \<open>
  \<open>s.strip()\<close> removes the whitespace at both ends; the whitespace characters are those of
  \<open>str.isspace\<close> among the first 256 code points.
\<close>

definition isspace :: "char \<Rightarrow> bool" where
  "isspace c \<longleftrightarrow> c \<in> set [CHR 0x09, CHR 0x0A, CHR 0x0B, CHR 0x0C, CHR 0x0D, CHR 0x1C, CHR 0x1D,
                        CHR 0x1E, CHR 0x1F, CHR 0x20, CHR 0x85, CHR 0xA0]"

definition strip :: "string \<Rightarrow> string" where
  "strip s = rev (dropWhile isspace (rev (dropWhile isspace s)))"

definition format_statement :: "py \<Rightarrow> token \<Rightarrow> param list \<Rightarrow> error + string" where
  "format_statement p statement parameters =
     (case process_token p parameters statement 0 of
        Inl e \<Rightarrow> Inl e
      | Inr (tok, idx) \<Rightarrow>
          (let formatted_sql = rstrip_semicolon (str_token tok) in
           if idx < length parameters then
             Inl (DataError (TooManyParameters (length parameters) idx))
           else Inr formatted_sql))"

definition split_format_sql :: "py \<Rightarrow> string \<Rightarrow> param list list \<Rightarrow> error + string list" where
  "split_format_sql p query parameters =
     (let statements = parse_sql p query in
      if statements = [] then Inr [query]
      else if parameters \<noteq> [] then
        (if length statements > 1 then Inl NotSupportedError
         else map_raise (\<lambda>paramset. format_statement p (statements ! 0) paramset) parameters)
      else Inr (map (\<lambda>st. rstrip_semicolon (strip (str_token st))) statements))"

section \<open>The transport and its responses\<close>

text \<open>
  The JSON body of a response, typed as the wire protocol declares it: an object with the
  fields \<open>rows\<close> (an integer), \<open>meta\<close> (objects with a \<open>name\<close> and a \<open>type\<close>, both
  strings) and \<open>data\<close> (a list of rows).  Any of the keys may be missing, which is \<open>None\<close>
  here and a \<open>KeyError\<close> in the source.
\<close>

record meta =
  meta_name :: "string option"
  meta_type :: "string option"

record query_data =
  qd_rows :: "int option"
  qd_meta :: "meta list option"
  qd_data :: "raw list list option"

text \<open>
  A response of \<open>httpx\<close>: the status code, the header \<open>content-length\<close> when present, the
  body as text (\<open>resp.read().decode('utf-8')\<close>) and as JSON (\<open>resp.json()\<close>, which raises
  when the body is not JSON).
\<close>

record response =
  status_code :: nat
  content_length :: "string option"
  text_body :: string
  json :: "error + query_data"

text \<open>
  What a cursor reaches through its connection and client: the database name, the HTTP
  request (\<open>self._client.request\<close>, given the query parameters and the body), the two
  probes \<open>is_db_available\<close> and \<open>is_engine_running\<close>, and \<open>self._client.aclose\<close>.  Each
  of them can raise and can change the state \<open>'t\<close> of the outside world.
\<close>

record 't net =
  database :: string
  request :: "'t \<Rightarrow> (string \<times> string) list \<Rightarrow> string \<Rightarrow> (error + response) \<times> 't"
  is_db_available :: "'t \<Rightarrow> (error + bool) \<times> 't"
  is_engine_running :: "'t \<Rightarrow> (error + bool) \<times> 't"
  client_aclose :: "'t \<Rightarrow> error option \<times> 't"

text \<open>\<open>Response.raise_for_status\<close> of \<open>httpx\<close>: raises unless the status is 2xx.\<close>

definition raise_for_status :: "response \<Rightarrow> error option" where
  "raise_for_status resp =
     (if 200 \<le> status_code resp \<and> status_code resp \<le> 299 then None
      else Some (HTTPStatusError (status_code resp)))"

section \<open>The cursor (\<open>cursor.py\<close>)\<close>

datatype CursorState = NONE | ERROR | DONE | CLOSED

text \<open>
  A \<open>Column\<close> is a named tuple of seven fields, of which the code only ever sets \<open>name\<close>
  and \<open>type_code\<close>; the other five are always \<open>None\<close> and are left out.
\<close>

datatype Column = Column (name: string) (type_code: ctype)

type_synonym row_set = "int \<times> Column list option \<times> raw list list option"

record cursor =
  arraysize :: int
  state :: CursorState
  descriptions :: "Column list option"
  rowcount :: int
  rows :: "raw list list option"
  idx :: int
  row_sets :: "row_set list"
  next_set_idx :: nat

definition closed :: "cursor \<Rightarrow> bool" where
  "closed c \<longleftrightarrow> state c = CLOSED"

text \<open>The properties \<open>description\<close> and \<open>rowcount\<close>, both under \<open>check_not_closed\<close>.\<close>

definition description :: "cursor \<Rightarrow> error + Column list option" where
  "description c = (if closed c then Inl CursorClosedError else Inr (descriptions c))"

definition rowcount_property :: "cursor \<Rightarrow> error + int" where
  "rowcount_property c = (if closed c then Inl CursorClosedError else Inr (rowcount c))"

definition reset :: "cursor \<Rightarrow> cursor" where
  "reset c = c\<lparr>state := NONE, rows := None, descriptions := None, rowcount := - 1, idx := 0,
               row_sets := [], next_set_idx := 0\<rparr>"

text \<open>\<open>BaseCursor.__init__\<close>: \<open>default_arraysize\<close> and a \<open>_reset\<close>.\<close>

definition new_cursor :: cursor where
  "new_cursor = \<lparr>arraysize = 1, state = NONE, descriptions = None, rowcount = - 1, rows = None,
                  idx = 0, row_sets = [], next_set_idx = 0\<rparr>"

definition pop_next_set :: "cursor \<Rightarrow> bool option \<times> cursor" where
  "pop_next_set c =
     (if next_set_idx c \<ge> length (row_sets c) then (None, c)
      else (case row_sets c ! next_set_idx c of
              (rc, d, r) \<Rightarrow>
                (Some True,
                 c\<lparr>rowcount := rc, descriptions := d, rows := r, idx := 0,
                   next_set_idx := next_set_idx c + 1\<rparr>)))"

definition nextset :: "cursor \<Rightarrow> (error + bool option) \<times> cursor" where
  "nextset c =
     (if closed c then (Inl CursorClosedError, c)
      else if state c = NONE then (Inl QueryNotRunError, c)
      else (case pop_next_set c of (r, c') \<Rightarrow> (Inr r, c')))"

text \<open>The column of one entry of \<open>meta\<close>: \<open>Column(d["name"], parse_type(d["type"]), ...)\<close>.\<close>

definition meta_column :: "meta \<Rightarrow> error + Column" where
  "meta_column d =
     (case meta_name d of
        None \<Rightarrow> Inl (KeyError ''name'')
      | Some n \<Rightarrow>
          (case meta_type d of
             None \<Rightarrow> Inl (KeyError ''type'')
           | Some ty \<Rightarrow> (case parse_type ty of Inl e \<Rightarrow> Inl e | Inr t \<Rightarrow> Inr (Column n t))))"

text \<open>The body of the \<open>try\<close> in \<open>_append_query_data\<close>, after \<open>response.json()\<close>.\<close>

definition query_data_row_set :: "query_data \<Rightarrow> error + row_set" where
  "query_data_row_set qd =
     (case qd_rows qd of
        None \<Rightarrow> Inl (KeyError ''rows'')
      | Some rc \<Rightarrow>
          (case qd_meta qd of
             None \<Rightarrow> Inl (KeyError ''meta'')
           | Some ms \<Rightarrow>
               (case map_raise meta_column ms of
                  Inl e \<Rightarrow> Inl e
                | Inr ds \<Rightarrow>
                    (case qd_data qd of
                       None \<Rightarrow> Inl (KeyError ''data'')
                     | Some rs \<Rightarrow> Inr (rc, Some ds, Some rs)))))"

text \<open>\<open>except (KeyError, ValueError) as err: raise DataError(...)\<close>\<close>

fun except_KeyError_ValueError :: "error \<Rightarrow> error" where
  "except_KeyError_ValueError (KeyError k) = DataError InvalidQueryDataFormat"
| "except_KeyError_ValueError ValueError = DataError InvalidQueryDataFormat"
| "except_KeyError_ValueError e = e"

text \<open>
  The row set that \<open>_append_query_data\<close> decodes from a response; the header is read with
  \<open>headers.get("content-length", "")\<close>.
\<close>

definition response_row_set :: "response \<Rightarrow> error + row_set" where
  "response_row_set resp =
     (if (case content_length resp of None \<Rightarrow> [] | Some v \<Rightarrow> v) \<noteq> ''0'' then
        (case json resp of
           Inl e \<Rightarrow> Inl (except_KeyError_ValueError e)
         | Inr qd \<Rightarrow>
             (case query_data_row_set qd of
                Inl e \<Rightarrow> Inl (except_KeyError_ValueError e)
              | Inr rs \<Rightarrow> Inr rs))
      else Inr (- 1, None, None))"

definition append_query_data :: "cursor \<Rightarrow> response \<Rightarrow> error + cursor" where
  "append_query_data c resp =
     (case response_row_set resp of
        Inl e \<Rightarrow> Inl e
      | Inr rs \<Rightarrow>
          (let c1 = c\<lparr>row_sets := row_sets c @ [rs]\<rparr> in
           if next_set_idx c1 = 0 then Inr (snd (pop_next_set c1)) else Inr c1))"

text \<open>
  \<open>_raise_if_error\<close>; each probe is a network call of its own.  The message of the
  \<open>OperationalError\<close> is the text \<open>Error executing query:\<close>, a line feed, and the body of
  the response.
\<close>

definition error_executing_query :: "string \<Rightarrow> string" where
  "error_executing_query body = ''Error executing query:'' @ [CHR 0x0A] @ body"

definition raise_if_error :: "'t net \<Rightarrow> 't \<Rightarrow> response \<Rightarrow> error option \<times> 't" where
  "raise_if_error n t resp =
     (if status_code resp = 500 then
        (Some (OperationalError (error_executing_query (text_body resp))), t)
      else if status_code resp = 403 then
        (case is_db_available n t of
           (Inl e, t') \<Rightarrow> (Some e, t')
         | (Inr available, t') \<Rightarrow>
             (if \<not> available then (Some FireboltDatabaseError, t')
              else (Some (ProgrammingError (text_body resp)), t')))
      else if status_code resp = 503 \<or> status_code resp = 404 then
        (case is_engine_running n t of
           (Inl e, t') \<Rightarrow> (Some e, t')
         | (Inr running, t') \<Rightarrow>
             (if \<not> running then (Some EngineNotRunningError, t')
              else (raise_for_status resp, t')))
      else (raise_for_status resp, t))"

definition JSON_OUTPUT_FORMAT :: string where
  "JSON_OUTPUT_FORMAT = ''JSONCompact''"

text \<open>
  The \<open>params\<close> of a request: the dictionary
  \<open>{"database": ..., "output_format": ..., **(set_parameters or dict())}\<close>.
\<close>

definition request_params :: "'t net \<Rightarrow> (string \<times> string) list option \<Rightarrow> (string \<times> string) list"
  where
  "request_params n set_parameters =
     fold (\<lambda>(k, v). AList.update k v) (case set_parameters of None \<Rightarrow> [] | Some sp \<Rightarrow> sp)
       [(''database'', database n), (''output_format'', JSON_OUTPUT_FORMAT)]"

text \<open>
  One round of the loop of \<open>_do_execute_request\<close>: the request, \<open>_raise_if_error\<close>,
  \<open>_append_query_data\<close>, and the log line, which reads the property \<open>rowcount\<close>.  The result
  is the exception raised, if any, with the cursor and the outside world as they are then.
\<close>

definition run_query ::
  "'t net \<Rightarrow> (string \<times> string) list option \<Rightarrow> cursor \<Rightarrow> string \<Rightarrow> 't \<Rightarrow> error option \<times> cursor \<times> 't"
  where
  "run_query n set_parameters c query t =
     (case request n t (request_params n set_parameters) query of
        (Inl e, t1) \<Rightarrow> (Some e, c, t1)
      | (Inr resp, t1) \<Rightarrow>
          (case raise_if_error n t1 resp of
             (Some e, t2) \<Rightarrow> (Some e, c, t2)
           | (None, t2) \<Rightarrow>
               (case append_query_data c resp of
                  Inl e \<Rightarrow> (Some e, c, t2)
                | Inr c' \<Rightarrow>
                    (case rowcount_property c' of
                       Inl e \<Rightarrow> (Some e, c', t2)
                     | Inr rc \<Rightarrow> (None, c', t2)))))"

text \<open>The loop \<open>for query in queries\<close>.\<close>

fun run_queries ::
  "'t net \<Rightarrow> (string \<times> string) list option \<Rightarrow> cursor \<Rightarrow> string list \<Rightarrow> 't \<Rightarrow>
     error option \<times> cursor \<times> 't"
  where
  "run_queries n set_parameters c [] t = (None, c, t)"
| "run_queries n set_parameters c (query # queries) t =
     (case run_query n set_parameters c query t of
        (Some e, c', t') \<Rightarrow> (Some e, c', t')
      | (None, c', t') \<Rightarrow> run_queries n set_parameters c' queries t')"

text \<open>
  The handler \<open>except Exception: self._state = CursorState.ERROR; raise\<close>: an exception that
  is not an \<open>Exception\<close> passes it by and leaves the state as it is.
\<close>

definition except_Exception :: "cursor \<Rightarrow> error \<Rightarrow> cursor" where
  "except_Exception c e = (if is_Exception e then c\<lparr>state := ERROR\<rparr> else c)"

definition do_execute_request ::
  "'t net \<Rightarrow> py \<Rightarrow> cursor \<Rightarrow> string \<Rightarrow> param list list \<Rightarrow> (string \<times> string) list option \<Rightarrow> 't \<Rightarrow>
     error option \<times> cursor \<times> 't"
  where
  "do_execute_request n p c query parameters set_parameters t =
     (let c0 = reset c in
      case split_format_sql p query parameters of
        Inl e \<Rightarrow> (Some e, except_Exception c0 e, t)
      | Inr queries \<Rightarrow>
          (case run_queries n set_parameters c0 queries t of
             (Some e, c1, t1) \<Rightarrow> (Some e, except_Exception c1 e, t1)
           | (None, c1, t1) \<Rightarrow> (None, c1\<lparr>state := DONE\<rparr>, t1)))"

text \<open>
  \<open>execute\<close> and \<open>executemany\<close>, under \<open>check_not_closed\<close>, as the source writes them: the
  whole body of the coroutine, run with nothing else scheduled at its \<open>await\<close>s.  The
  subclass \<open>Cursor\<close> wraps them in the writer side of its lock.
\<close>

text \<open>\<open>params_list = [parameters] if parameters else []\<close>\<close>

definition params_list :: "param list option \<Rightarrow> param list list" where
  "params_list parameters =
     (case parameters of None \<Rightarrow> [] | Some ps \<Rightarrow> if ps \<noteq> [] then [ps] else [])"

definition execute ::
  "'t net \<Rightarrow> py \<Rightarrow> cursor \<Rightarrow> string \<Rightarrow> param list option \<Rightarrow> (string \<times> string) list option \<Rightarrow> 't \<Rightarrow>
     (error + int) \<times> cursor \<times> 't"
  where
  "execute n p c query parameters set_parameters t =
     (if closed c then (Inl CursorClosedError, c, t)
      else
        (case do_execute_request n p c query (params_list parameters) set_parameters t of
           (Some e, c', t') \<Rightarrow> (Inl e, c', t')
         | (None, c', t') \<Rightarrow> (rowcount_property c', c', t')))"

definition executemany ::
  "'t net \<Rightarrow> py \<Rightarrow> cursor \<Rightarrow> string \<Rightarrow> param list list \<Rightarrow> 't \<Rightarrow> (error + int) \<times> cursor \<times> 't"
  where
  "executemany n p c query parameters_seq t =
     (if closed c then (Inl CursorClosedError, c, t)
      else (case do_execute_request n p c query parameters_seq None t of
              (Some e, c', t') \<Rightarrow> (Inl e, c', t')
            | (None, c', t') \<Rightarrow> (rowcount_property c', c', t')))"

section \<open>The coroutine \<open>execute\<close>, one suspension at a time\<close>

text \<open>
  \<open>execute\<close> is a coroutine.  It gives control away where it awaits the network: at
  \<open>await self._client.request(...)\<close>, once for each statement, and inside
  \<open>_raise_if_error\<close> at \<open>await is_db_available(...)\<close> and \<open>await is_engine_running(...)\<close>.
  Between two of these points its code runs without interruption.  A suspended \<open>execute\<close>
  is the statements it still has to run (the first of them is the one in flight), its
  \<open>set_parameters\<close>, and the point at which it waits; at a probe it also holds the response
  it is validating.
\<close>

datatype phase = Await_request | Await_db_probe response | Await_engine_probe response

record exec_task =
  task_queries :: "string list"
  task_set_parameters :: "(string \<times> string) list option"
  task_phase :: phase

datatype progress = Suspended exec_task | Finished "error + int"

text \<open>An exception raised inside the \<open>try\<close> of \<open>_do_execute_request\<close> ends the coroutine.\<close>

definition raised :: "cursor \<Rightarrow> error \<Rightarrow> 't \<Rightarrow> progress \<times> cursor \<times> 't" where
  "raised c e t = (Finished (Inl e), except_Exception c e, t)"

text \<open>
  The head of the loop \<open>for query in queries\<close>: with a statement left the coroutine sends
  its request and waits; with none left the state becomes \<open>DONE\<close> and \<open>execute\<close> returns
  \<open>self.rowcount\<close>.
\<close>

definition next_query ::
  "cursor \<Rightarrow> string list \<Rightarrow> (string \<times> string) list option \<Rightarrow> 't \<Rightarrow> progress \<times> cursor \<times> 't"
  where
  "next_query c queries set_parameters t =
     (if queries = [] then
        (let c' = c\<lparr>state := DONE\<rparr> in (Finished (rowcount_property c'), c', t))
      else
        (Suspended \<lparr>task_queries = queries, task_set_parameters = set_parameters,
                     task_phase = Await_request\<rparr>, c, t))"

text \<open>
  The code from the call of the coroutine to its first suspension: the test of
  \<open>check_not_closed\<close>, \<open>_reset\<close>, and \<open>split_format_sql\<close>.
\<close>

definition do_execute_request_start ::
  "py \<Rightarrow> cursor \<Rightarrow> string \<Rightarrow> param list list \<Rightarrow> (string \<times> string) list option \<Rightarrow> 't \<Rightarrow>
     progress \<times> cursor \<times> 't"
  where
  "do_execute_request_start p c query parameters set_parameters t =
     (let c0 = reset c in
      case split_format_sql p query parameters of
        Inl e \<Rightarrow> raised c0 e t
      | Inr queries \<Rightarrow> next_query c0 queries set_parameters t)"

definition execute_start ::
  "py \<Rightarrow> cursor \<Rightarrow> string \<Rightarrow> param list option \<Rightarrow> (string \<times> string) list option \<Rightarrow> 't \<Rightarrow>
     progress \<times> cursor \<times> 't"
  where
  "execute_start p c query parameters set_parameters t =
     (if closed c then (Finished (Inl CursorClosedError), c, t)
      else do_execute_request_start p c query (params_list parameters) set_parameters t)"

definition executemany_start ::
  "py \<Rightarrow> cursor \<Rightarrow> string \<Rightarrow> param list list \<Rightarrow> 't \<Rightarrow> progress \<times> cursor \<times> 't"
  where
  "executemany_start p c query parameters_seq t =
     (if closed c then (Finished (Inl CursorClosedError), c, t)
      else do_execute_request_start p c query parameters_seq None t)"

text \<open>
  The code from \<open>resp.raise_for_status()\<close>, the last line of \<open>_raise_if_error\<close>, to the next
  suspension: \<open>_append_query_data\<close>, the log line reading the property \<open>rowcount\<close>, and the
  head of the loop for the statements after the one in flight.
\<close>

definition after_validation ::
  "cursor \<Rightarrow> exec_task \<Rightarrow> response \<Rightarrow> 't \<Rightarrow> progress \<times> cursor \<times> 't"
  where
  "after_validation c task resp t =
     (case raise_for_status resp of
        Some e \<Rightarrow> raised c e t
      | None \<Rightarrow>
          (case append_query_data c resp of
             Inl e \<Rightarrow> raised c e t
           | Inr c' \<Rightarrow>
               (case rowcount_property c' of
                  Inl e \<Rightarrow> raised c' e t
                | Inr rc \<Rightarrow>
                    next_query c' (tl (task_queries task)) (task_set_parameters task) t)))"

text \<open>
  The coroutine resumed: the network call it was waiting for gives its answer (what the
  outside world does from the sending of the request to the answer is the effect of the call
  on \<open>'t\<close>), and the code runs to the next suspension or to the end.  The cursor is read as
  it is at that moment.
\<close>

definition execute_resume :: "'t net \<Rightarrow> cursor \<Rightarrow> exec_task \<Rightarrow> 't \<Rightarrow> progress \<times> cursor \<times> 't"
  where
  "execute_resume n c task t =
     (case task_phase task of
        Await_request \<Rightarrow>
          (case task_queries task of
             [] \<Rightarrow> next_query c [] (task_set_parameters task) t
           | query # queries \<Rightarrow>
               (case request n t (request_params n (task_set_parameters task)) query of
                  (Inl e, t1) \<Rightarrow> raised c e t1
                | (Inr resp, t1) \<Rightarrow>
                    (if status_code resp = 500 then
                       raised c (OperationalError (error_executing_query (text_body resp))) t1
                     else if status_code resp = 403 then
                       (Suspended (task\<lparr>task_phase := Await_db_probe resp\<rparr>), c, t1)
                     else if status_code resp = 503 \<or> status_code resp = 404 then
                       (Suspended (task\<lparr>task_phase := Await_engine_probe resp\<rparr>), c, t1)
                     else after_validation c task resp t1)))
      | Await_db_probe resp \<Rightarrow>
          (case is_db_available n t of
             (Inl e, t1) \<Rightarrow> raised c e t1
           | (Inr available, t1) \<Rightarrow>
               (if \<not> available then raised c FireboltDatabaseError t1
                else raised c (ProgrammingError (text_body resp)) t1))
      | Await_engine_probe resp \<Rightarrow>
          (case is_engine_running n t of
             (Inl e, t1) \<Rightarrow> raised c e t1
           | (Inr running, t1) \<Rightarrow>
               (if \<not> running then raised c EngineNotRunningError t1
                else after_validation c task resp t1)))"

text \<open>
  The number of suspensions a coroutine can still go through, at most: two for each
  statement left, one less once the request of the first is answered.
\<close>

fun suspensions :: "progress \<Rightarrow> nat" where
  "suspensions (Finished r) = 0"
| "suspensions (Suspended task) =
     2 * length (task_queries task) + (if task_phase task = Await_request then 2 else 1)"

text \<open>The coroutine resumed again and again with nothing else scheduled in between.\<close>

function complete :: "'t net \<Rightarrow> progress \<times> cursor \<times> 't \<Rightarrow> (error + int) \<times> cursor \<times> 't" where
  "complete n (Finished r, c, t) = (r, c, t)"
| "complete n (Suspended task, c, t) = complete n (execute_resume n c task t)"
  by pat_completeness auto
termination
proof (relation "measure (\<lambda>(n, pr, c, t). suspensions pr)")
  show "wf (measure (\<lambda>(n :: 't net, pr, c :: cursor, t :: 't). suspensions pr))"
    by simp
next
  fix n :: "'t net" and task c and t :: 't
  have "suspensions (fst (execute_resume n c task t)) < suspensions (Suspended task)"
    by (cases "task_queries task")
       (auto simp: execute_resume_def after_validation_def next_query_def raised_def Let_def
          split: phase.split prod.split sum.split option.split list.split)
  then show "((n, execute_resume n c task t), (n, Suspended task, c, t))
        \<in> measure (\<lambda>(n, pr, c, t). suspensions pr)"
    by (cases "execute_resume n c task t") simp
qed

section \<open>Fetching\<close>

text \<open>
  Python's \<open>xs[i]\<close> and \<open>xs[l:r]\<close> for integers of either sign: a negative index counts
  from the end, an index out of range raises, a slice is clamped to the list.
\<close>

definition py_index :: "'a list \<Rightarrow> int \<Rightarrow> error + 'a" where
  "py_index xs i =
     (let n = int (length xs); j = (if i < 0 then i + n else i)
      in if 0 \<le> j \<and> j < n then Inr (xs ! nat j) else Inl IndexError)"

definition slice_bound :: "int \<Rightarrow> int \<Rightarrow> nat" where
  "slice_bound n i = nat (if i < 0 then max (i + n) 0 else min i n)"

definition py_slice :: "'a list \<Rightarrow> int \<Rightarrow> int \<Rightarrow> 'a list" where
  "py_slice xs l r =
     (let n = int (length xs)
      in take (slice_bound n r - slice_bound n l) (drop (slice_bound n l) xs))"

definition parse_row :: "py \<Rightarrow> cursor \<Rightarrow> raw list \<Rightarrow> error + col list" where
  "parse_row p c row =
     (case description c of
        Inl e \<Rightarrow> Inl e
      | Inr None \<Rightarrow> Inl TypeError
      | Inr (Some ds) \<Rightarrow>
          (if length row \<noteq> length ds then Inl AssertionError
           else map_raise (\<lambda>(v, d). parse_value p v (type_code d)) (zip row ds)))"

definition get_next_range :: "cursor \<Rightarrow> int \<Rightarrow> error + (int \<times> int) \<times> cursor" where
  "get_next_range c sz =
     (case rows c of
        None \<Rightarrow> Inl (DataError NoRowsToFetch)
      | Some rs \<Rightarrow>
          (let left = idx c; right = min (idx c + sz) (int (length rs))
           in Inr ((left, right), c\<lparr>idx := right\<rparr>)))"

definition fetchone :: "py \<Rightarrow> cursor \<Rightarrow> (error + col list option) \<times> cursor" where
  "fetchone p c =
     (if closed c then (Inl CursorClosedError, c)
      else if state c = NONE then (Inl QueryNotRunError, c)
      else (case get_next_range c 1 of
              Inl e \<Rightarrow> (Inl e, c)
            | Inr ((left, right), c') \<Rightarrow>
                (if left = right then (Inr None, c')
                 else (case rows c' of
                         None \<Rightarrow> (Inl AssertionError, c')
                       | Some rs \<Rightarrow>
                           (case py_index rs left of
                              Inl e \<Rightarrow> (Inl e, c')
                            | Inr row \<Rightarrow>
                                (case parse_row p c' row of
                                   Inl e \<Rightarrow> (Inl e, c')
                                 | Inr r \<Rightarrow> (Inr (Some r), c')))))))"

text \<open>The common tail of \<open>fetchmany\<close> and \<open>fetchall\<close>.\<close>

definition fetch_range :: "py \<Rightarrow> cursor \<Rightarrow> int \<Rightarrow> (error + col list list) \<times> cursor" where
  "fetch_range p c sz =
     (case get_next_range c sz of
        Inl e \<Rightarrow> (Inl e, c)
      | Inr ((left, right), c') \<Rightarrow>
          (case rows c' of
             None \<Rightarrow> (Inl AssertionError, c')
           | Some rs \<Rightarrow> (map_raise (parse_row p c') (py_slice rs left right), c')))"

definition fetchmany :: "py \<Rightarrow> cursor \<Rightarrow> int option \<Rightarrow> (error + col list list) \<times> cursor" where
  "fetchmany p c sz =
     (if closed c then (Inl CursorClosedError, c)
      else if state c = NONE then (Inl QueryNotRunError, c)
      else fetch_range p c (case sz of None \<Rightarrow> arraysize c | Some k \<Rightarrow> k))"

definition fetchall :: "py \<Rightarrow> cursor \<Rightarrow> (error + col list list) \<times> cursor" where
  "fetchall p c =
     (if closed c then (Inl CursorClosedError, c)
      else if state c = NONE then (Inl QueryNotRunError, c)
      else (case rowcount_property c of
              Inl e \<Rightarrow> (Inl e, c)
            | Inr rc \<Rightarrow> fetch_range p c rc))"

section \<open>The connection (\<open>connection.py\<close>)\<close>

text \<open>
  A connection and the cursor objects it has created.  Cursor objects are referred to by
  number (their identity); \<open>cursor_objs\<close> holds every cursor created so far, \<open>conn_cursors\<close>
  is the list \<open>self._cursors\<close> of the connection, \<open>conn_is_closed\<close> its flag
  \<open>self._is_closed\<close>, and \<open>conn_client\<close> the state of the outside world behind its client.
  The coroutines that are suspended belong to the world as well: \<open>in_flight\<close> gives, for a
  cursor, the \<open>execute\<close> or \<open>executemany\<close> that is waiting for the network and holds the
  writer side of the cursor's lock, and \<open>closing\<close> counts the calls of \<open>_aclose\<close> that are
  waiting in \<open>await self._client.aclose()\<close>.
\<close>

record 't world =
  conn_client :: 't
  conn_cursors :: "nat list"
  conn_is_closed :: bool
  cursor_objs :: "nat \<rightharpoonup> cursor"
  next_obj :: nat
  in_flight :: "nat \<rightharpoonup> exec_task"
  closing :: nat

text \<open>\<open>BaseConnection.__init__\<close>\<close>

definition new_connection :: "'t \<Rightarrow> 't world" where
  "new_connection t =
     \<lparr>conn_client = t, conn_cursors = [], conn_is_closed = False, cursor_objs = Map.empty,
      next_obj = 0, in_flight = Map.empty, closing = 0\<rparr>"

text \<open>\<open>BaseConnection._cursor\<close> (and \<open>Connection.cursor\<close>).\<close>

definition Connection_cursor :: "'t world \<Rightarrow> (error + nat) \<times> 't world" where
  "Connection_cursor w =
     (if conn_is_closed w then (Inl ConnectionClosedError, w)
      else (Inr (next_obj w),
            w\<lparr>cursor_objs := (cursor_objs w)(next_obj w \<mapsto> new_cursor),
              conn_cursors := conn_cursors w @ [next_obj w],
              next_obj := next_obj w + 1\<rparr>))"

text \<open>
  \<open>_remove_cursor\<close>: \<open>list.remove\<close> takes the first occurrence out, and the \<open>ValueError\<close>
  of a cursor that is not in the list is swallowed.
\<close>

definition remove_cursor :: "'t world \<Rightarrow> nat \<Rightarrow> 't world" where
  "remove_cursor w i = w\<lparr>conn_cursors := remove1 i (conn_cursors w)\<rparr>"

text \<open>
  \<open>BaseCursor.close\<close> on the cursor object \<open>i\<close>.  It takes no lock and does not touch a
  coroutine of the cursor that is suspended.
\<close>

definition Cursor_close :: "'t world \<Rightarrow> nat \<Rightarrow> 't world" where
  "Cursor_close w i =
     (case cursor_objs w i of
        None \<Rightarrow> w
      | Some c \<Rightarrow> remove_cursor (w\<lparr>cursor_objs := (cursor_objs w)(i \<mapsto> c\<lparr>state := CLOSED\<rparr>)\<rparr>) i)"

text \<open>The loop \<open>for c in cursors: c.close()\<close> over the copy \<open>self._cursors[:]\<close>.\<close>

fun close_all :: "'t world \<Rightarrow> nat list \<Rightarrow> 't world" where
  "close_all w [] = w"
| "close_all w (i # cursors) = close_all (Cursor_close w i) cursors"

text \<open>
  \<open>BaseConnection._aclose\<close> is a coroutine with one suspension.  Its first part returns at
  once on a closed connection; otherwise it closes the cursors of the list and calls
  \<open>self._client.aclose()\<close>, in which it waits.  The flag \<open>_is_closed\<close> is still \<open>False\<close>
  then.
\<close>

definition Connection_aclose_start :: "'t world \<Rightarrow> 't world" where
  "Connection_aclose_start w =
     (if conn_is_closed w then w
      else (close_all w (conn_cursors w))\<lparr>closing := closing w + 1\<rparr>)"

text \<open>
  Its second part: \<open>self._client.aclose()\<close> returns, and the connection is marked as closed,
  or raises, and it is not.  The result is the exception raised, if any.
\<close>

definition Connection_aclose_resume :: "'t net \<Rightarrow> 't world \<Rightarrow> error option \<times> 't world" where
  "Connection_aclose_resume n w =
     (if closing w = 0 then (None, w)
      else
        (case client_aclose n (conn_client w) of
           (Some e, t) \<Rightarrow> (Some e, w\<lparr>conn_client := t, closing := closing w - 1\<rparr>)
         | (None, t) \<Rightarrow>
             (None, w\<lparr>conn_client := t, conn_is_closed := True, closing := closing w - 1\<rparr>)))"

definition Connection_commit :: "'t world \<Rightarrow> error option" where
  "Connection_commit w = (if conn_is_closed w then Some ConnectionClosedError else None)"

text \<open>
  A method of the cursor object \<open>i\<close> run in a world: the cursor and the outside world are
  replaced by those the method leaves.
\<close>

definition on_cursor :: "'t world \<Rightarrow> nat \<Rightarrow> (cursor \<Rightarrow> 't \<Rightarrow> cursor \<times> 't) \<Rightarrow> 't world" where
  "on_cursor w i f =
     (case cursor_objs w i of
        None \<Rightarrow> w
      | Some c \<Rightarrow>
          (case f c (conn_client w) of
             (c', t') \<Rightarrow> w\<lparr>cursor_objs := (cursor_objs w)(i \<mapsto> c'), conn_client := t'\<rparr>))"

text \<open>
  A part of the coroutine \<open>execute\<close> of the cursor object \<open>i\<close> run in a world: when it ends
  in a suspension the coroutine is kept, with the lock; when the coroutine ends the lock is
  free again.
\<close>

definition task_of :: "progress \<Rightarrow> exec_task option" where
  "task_of pr = (case pr of Suspended task \<Rightarrow> Some task | Finished r \<Rightarrow> None)"

definition on_coroutine ::
  "'t world \<Rightarrow> nat \<Rightarrow> (cursor \<Rightarrow> 't \<Rightarrow> progress \<times> cursor \<times> 't) \<Rightarrow> 't world" where
  "on_coroutine w i f =
     (case cursor_objs w i of
        None \<Rightarrow> w
      | Some c \<Rightarrow>
          (case f c (conn_client w) of
             (pr, c', t') \<Rightarrow>
               w\<lparr>cursor_objs := (cursor_objs w)(i \<mapsto> c'), conn_client := t',
                 in_flight := (in_flight w)(i := task_of pr)\<rparr>))"

text \<open>
  What the event loop runs, one piece after the other.  A piece is a method that does not
  suspend (\<open>cursor()\<close>, \<open>close()\<close>, the setter of \<open>arraysize\<close>, \<open>commit()\<close>, and the fetch
  methods and \<open>nextset\<close> once they hold the reader side of the lock), the part of a coroutine
  from its call to its first suspension (\<open>Call_execute\<close>, \<open>Call_executemany\<close>,
  \<open>Call_aclose\<close>), or the part from one suspension to the next (\<open>Resume\<close> for the \<open>execute\<close>
  of a cursor, \<open>Resume_aclose\<close> for an \<open>_aclose\<close>).  Any other piece can run between two
  parts of a coroutine.  A program that never has two calls under way runs every coroutine
  to its end before the next call.

  A call on a cursor number that no cursor has is no call at all; neither is \<open>Resume\<close> with
  no coroutine suspended.  While an \<open>execute\<close> of a cursor is suspended, the lock keeps the
  \<open>execute\<close>, \<open>executemany\<close>, fetch and \<open>nextset\<close> calls on that cursor waiting: they run
  later, and are no piece now.
\<close>

datatype call =
    Call_cursor
  | Call_close nat
  | Call_execute nat string "param list option" "(string \<times> string) list option"
  | Call_executemany nat string "param list list"
  | Resume nat
  | Call_fetchone nat
  | Call_fetchmany nat "int option"
  | Call_fetchall nat
  | Call_nextset nat
  | Call_set_arraysize nat int
  | Call_aclose
  | Resume_aclose
  | Call_commit

definition unlocked :: "'t world \<Rightarrow> nat \<Rightarrow> bool" where
  "unlocked w i \<longleftrightarrow> in_flight w i = None"

fun step :: "'t net \<Rightarrow> py \<Rightarrow> 't world \<Rightarrow> call \<Rightarrow> 't world" where
  "step n p w Call_cursor = snd (Connection_cursor w)"
| "step n p w (Call_close i) = Cursor_close w i"
| "step n p w (Call_execute i query parameters set_parameters) =
     (if unlocked w i then
        on_coroutine w i (\<lambda>c t. execute_start p c query parameters set_parameters t)
      else w)"
| "step n p w (Call_executemany i query parameters_seq) =
     (if unlocked w i then
        on_coroutine w i (\<lambda>c t. executemany_start p c query parameters_seq t)
      else w)"
| "step n p w (Resume i) =
     (case in_flight w i of
        None \<Rightarrow> w
      | Some task \<Rightarrow> on_coroutine w i (\<lambda>c t. execute_resume n c task t))"
| "step n p w (Call_fetchone i) =
     (if unlocked w i then on_cursor w i (\<lambda>c t. (snd (fetchone p c), t)) else w)"
| "step n p w (Call_fetchmany i sz) =
     (if unlocked w i then on_cursor w i (\<lambda>c t. (snd (fetchmany p c sz), t)) else w)"
| "step n p w (Call_fetchall i) =
     (if unlocked w i then on_cursor w i (\<lambda>c t. (snd (fetchall p c), t)) else w)"
| "step n p w (Call_nextset i) =
     (if unlocked w i then on_cursor w i (\<lambda>c t. (snd (nextset c), t)) else w)"
| "step n p w (Call_set_arraysize i v) = on_cursor w i (\<lambda>c t. (c\<lparr>arraysize := v\<rparr>, t))"
| "step n p w Call_aclose = Connection_aclose_start w"
| "step n p w Resume_aclose = snd (Connection_aclose_resume n w)"
| "step n p w Call_commit = w"

definition run :: "'t net \<Rightarrow> py \<Rightarrow> 't world \<Rightarrow> call list \<Rightarrow> 't world" where
  "run n p w calls = foldl (step n p) w calls"

section \<open>Result sets of a cursor\<close>

text \<open>The result set being fetched from: the three fields that \<open>_pop_next_set\<close> assigns.\<close>

definition active_set :: "cursor \<Rightarrow> row_set" where
  "active_set c = (rowcount c, descriptions c, rows c)"


text \<open>
  A row set has either both its columns and its rows or neither; a cursor is
  \<open>paired\<close> when that holds of its queued row sets and of the active one.
\<close>

definition paired_set :: "row_set \<Rightarrow> bool" where
  "paired_set rs = (case rs of (rc, d, r) \<Rightarrow> (d = None) = (r = None))"

definition paired :: "cursor \<Rightarrow> bool" where
  "paired c \<longleftrightarrow> list_all paired_set (row_sets c) \<and> paired_set (active_set c)"

text \<open>
  The cursor during the loop of \<open>_do_execute_request\<close>, when nothing else touches it
  meanwhile: its state is still \<open>NONE\<close>; with nothing buffered it is as \<open>_reset\<close> left it,
  otherwise the first row set is the active one, at position 0, and no later set has been
  popped.
\<close>

definition loading :: "cursor \<Rightarrow> bool" where
  "loading c \<longleftrightarrow>
     state c = NONE \<and>
     (if row_sets c = [] then next_set_idx c = 0
      else next_set_idx c = 1 \<and> active_set c = row_sets c ! 0 \<and> idx c = 0)"

text \<open>
  What holds of the world of a connection whatever runs in whatever order: every cursor
  object was numbered below \<open>next_obj\<close>, and every cursor is \<open>paired\<close>.
\<close>

definition world_inv :: "'t world \<Rightarrow> bool" where
  "world_inv w \<longleftrightarrow> (\<forall>i c. cursor_objs w i = Some c \<longrightarrow> i < next_obj w \<and> paired c)"

text \<open>Every cursor that is not closed is in the list \<open>self._cursors\<close> of the connection.\<close>

definition registered :: "'t world \<Rightarrow> bool" where
  "registered w \<longleftrightarrow>
     (\<forall>i c. cursor_objs w i = Some c \<and> state c \<noteq> CLOSED \<longrightarrow> i \<in> set (conn_cursors w))"

section \<open>Placeholder substitution, read from left to right\<close>

text \<open>
  The leaves of a token tree in source order, the number of placeholders among them, and
  the text in which the placeholders, from left to right, are replaced by the strings of a
  list, one string each.  \<open>fill\<close> is \<open>process_token\<close> on the flat list of leaves: it
  formats the parameter at the running index for each placeholder it meets.
\<close>

fun leaves :: "token \<Rightarrow> (ttype \<times> string) list"
  and leaves_list :: "token list \<Rightarrow> (ttype \<times> string) list" where
  "leaves (Token tt v) = [(tt, v)]"
| "leaves (TokenList tokens) = leaves_list tokens"
| "leaves_list [] = []"
| "leaves_list (t # ts) = leaves t @ leaves_list ts"

definition count_placeholders :: "(ttype \<times> string) list \<Rightarrow> nat" where
  "count_placeholders ls = length (filter (\<lambda>(tt, v). tt = Placeholder) ls)"

definition placeholders :: "token \<Rightarrow> nat" where
  "placeholders t = count_placeholders (leaves t)"

fun substitute :: "(ttype \<times> string) list \<Rightarrow> string list \<Rightarrow> string" where
  "substitute [] vs = []"
| "substitute ((tt, v) # ls) vs =
     (if tt = Placeholder then
        (case vs of [] \<Rightarrow> substitute ls [] | f # fs \<Rightarrow> f @ substitute ls fs)
      else v @ substitute ls vs)"

fun fill :: "py \<Rightarrow> param list \<Rightarrow> (ttype \<times> string) list \<Rightarrow> nat \<Rightarrow> error + string \<times> nat" where
  "fill p parameters [] i = Inr ([], i)"
| "fill p parameters ((tt, v) # ls) i =
     (if tt = Placeholder then
        (if i \<ge> length parameters then
           Inl (DataError (NotEnoughParameters (length parameters)))
         else (case format_value p (parameters ! i) of
                 Inl e \<Rightarrow> Inl e
               | Inr formatted \<Rightarrow>
                   (case fill p parameters ls (i + 1) of
                      Inl e \<Rightarrow> Inl e
                    | Inr (s, j) \<Rightarrow> Inr (formatted @ s, j))))
      else (case fill p parameters ls i of
              Inl e \<Rightarrow> Inl e
            | Inr (s, j) \<Rightarrow> Inr (v @ s, j)))"

section \<open>Trimming at the end only\<close>

text \<open>
  A statement's text \<^emph>\<open>trimmed of trailing whitespace and a single trailing semicolon, and
  otherwise unchanged\<close>, as a function of its own, to compare \<open>split_format_sql\<close> with.
\<close>

definition rstrip_whitespace :: "string \<Rightarrow> string" where
  "rstrip_whitespace s = rev (dropWhile isspace (rev s))"

definition trim_trailing :: "string \<Rightarrow> string" where
  "trim_trailing s =
     (let t = rstrip_whitespace s in if t \<noteq> [] \<and> last t = CHR '';'' then butlast t else t)"

section \<open>A sample environment\<close>

text \<open>
  Concrete library functions and a concrete tokenizer, for evaluating the definitions on
  inputs.  The tokenizer knows a few queries and splits them as \<open>sqlparse\<close> does; every
  other text has no statement.
\<close>

definition kw :: "string \<Rightarrow> token" where
  "kw s = Token OtherType s"

definition sample_parse_sql :: "string \<Rightarrow> token list" where
  "sample_parse_sql q =
     (if q = ''SELECT ?, ?'' then
        [TokenList [kw ''SELECT'', kw '' '',
           TokenList [Token Placeholder ''?'', kw '','', kw '' '', Token Placeholder ''?'']]]
      else if q = ''SELECT 1; SELECT 2'' then
        [TokenList [kw ''SELECT'', kw '' '', kw ''1'', kw '';'', kw '' ''],
         TokenList [kw ''SELECT'', kw '' '', kw ''2'']]
      else if q = ''SELECT 1; SELECT x'' then
        [TokenList [kw ''SELECT'', kw '' '', kw ''1'', kw '';'', kw '' ''],
         TokenList [kw ''SELECT'', kw '' '', kw ''x'']]
      else if q = ''SELECT 1; SELECT 3'' then
        [TokenList [kw ''SELECT'', kw '' '', kw ''1'', kw '';'', kw '' ''],
         TokenList [kw ''SELECT'', kw '' '', kw ''3'']]
      else if q = '' SELECT 1;'' then
        [TokenList [kw '' '', kw ''SELECT'', kw '' '', kw ''1'', kw '';'']]
      else if q = ''SELECT 1'' then
        [TokenList [kw ''SELECT'', kw '' '', kw ''1'']]
      else [])"

definition sample_py :: py where
  "sample_py =
     \<lparr>int_of_float = (\<lambda>f. Inl ValueError),
      int_of_str = (\<lambda>s. Inl ValueError),
      float_of_int = (\<lambda>i. Inr (Finite i 0)),
      float_of_str = (\<lambda>s. Inl ValueError),
      str_of_float = (\<lambda>f. ''nan''),
      str_of_Decimal = (\<lambda>d. ''0''),
      str_of_list = (\<lambda>l. Inr ''[]''),
      parse_datetime = (\<lambda>s. Inl ValueError),
      datetime_utc_strftime = (\<lambda>d. ''1970-01-01 00:00:00''),
      date_isoformat = (\<lambda>d. ''1970-01-01''),
      parse_sql = sample_parse_sql,
      int_max_str_digits = 4300\<rparr>"

text \<open>
  A sample engine.  It answers \<open>SELECT 1\<close> and \<open>SELECT 2\<close> with one row of one integer
  column, \<open>SELECT 1 LIMIT 0\<close> with the column and no row, an \<open>INSERT\<close> with an empty body,
  and anything else with status 500; while the answer to \<open>SELECT 3\<close> is awaited the program
  is interrupted from the keyboard, so that the request raises \<open>KeyboardInterrupt\<close>.  The
  state of the outside world is the number of requests made; the probes answer \<open>True\<close>, and
  closing the client succeeds.
\<close>

definition int_column_response :: "raw list list \<Rightarrow> response" where
  "int_column_response data =
     \<lparr>status_code = 200, content_length = Some ''64'', text_body = [],
      json = Inr \<lparr>qd_rows = Some (int (length data)),
                 qd_meta = Some [\<lparr>meta_name = Some ''v'', meta_type = Some ''Int32''\<rparr>],
                 qd_data = Some data\<rparr>\<rparr>"

definition empty_response :: response where
  "empty_response =
     \<lparr>status_code = 200, content_length = Some ''0'', text_body = [], json = Inl ValueError\<rparr>"

definition failed_response :: response where
  "failed_response =
     \<lparr>status_code = 500, content_length = None, text_body = ''syntax error'',
      json = Inl ValueError\<rparr>"

definition sample_request :: "nat \<Rightarrow> (string \<times> string) list \<Rightarrow> string \<Rightarrow> (error + response) \<times> nat"
  where
  "sample_request t params q =
     (if q = ''SELECT 1'' then (Inr (int_column_response [[R_int 1]]), t + 1)
      else if q = ''SELECT 2'' then (Inr (int_column_response [[R_int 2]]), t + 1)
      else if q = ''SELECT 1 LIMIT 0'' then (Inr (int_column_response []), t + 1)
      else if q = ''INSERT INTO t VALUES (1)'' then (Inr empty_response, t + 1)
      else if q = ''SELECT 3'' then (Inl KeyboardInterrupt, t + 1)
      else (Inr failed_response, t + 1))"

definition sample_net :: "nat net" where
  "sample_net =
     \<lparr>database = ''db'',
      request = sample_request,
      is_db_available = (\<lambda>t. (Inr True, t + 1)),
      is_engine_running = (\<lambda>t. (Inr True, t + 1)),
      client_aclose = (\<lambda>t. (None, t))\<rparr>"

text \<open>The cursor that holds one active row set of the given rows of one integer column.\<close>

definition int_column_set :: "raw list list \<Rightarrow> row_set" where
  "int_column_set data = (int (length data), Some [Column ''v'' T_int], Some data)"

definition done_cursor :: "raw list list \<Rightarrow> cursor" where
  "done_cursor data =
     \<lparr>arraysize = 1, state = DONE, descriptions = Some [Column ''v'' T_int],
      rowcount = int (length data), rows = Some data, idx = 0,
      row_sets = [int_column_set data], next_set_idx = 1\<rparr>"

section \<open>Properties of \<open>parse_type\<close>\<close>

lemma parse_type_Array:
  "parse_type (''Array('' @ s @ '')'') =
     (case parse_type s of Inl e \<Rightarrow> Inl e | Inr t \<Rightarrow> ARRAY_init t)"
  by (subst parse_type.simps)
    (simp add: ARRAY_prefix_def slice_to_last_def suffix_def butlast_append)

lemma parse_type_class:
  "parse_type ''<class 'int'>'' = Inr T_str"
  "parse_type ''<class 'float'>'' = Inr T_str"
  "parse_type ''<class 'str'>'' = Inr T_str"
  "parse_type ''<class 'datetime.datetime'>'' = Inr T_str"
  "parse_type ''<class 'datetime.date'>'' = Inr T_str"
  "parse_type ''<class 'bool'>'' = Inr T_str"
  "parse_type ''<class 'list'>'' = Inr T_str"
  "parse_type ''<class 'NoneType'>'' = Inr T_str"
  by (simp_all add: parse_type.simps ARRAY_prefix_def NULLABLE_PREFIX_def
      InternalType_python_type_def)

lemma str_based_not_list: "str_based t \<noteq> T_list"
  by (cases t) simp_all

lemma str_based_fixed: "str_based t = t \<longleftrightarrow> base_type t = T_str"
  by (induction t) auto

lemma parse_type_str_ctype: "parse_type (str_ctype t) = Inr (str_based t)"
proof (induction t)
  case (ARRAY t)
  then show ?case
    using parse_type_Array [of "str_ctype t"]
    by (simp add: ARRAY_init_def str_based_not_list)
qed (simp_all add: parse_type_class)

text \<open>\<open>parse_type\<close> never raises, and never yields \<open>list\<close> at the base of a type.\<close>

lemma parse_type_total: "\<exists>t. parse_type x = Inr t \<and> base_type t \<noteq> T_list"
proof (induction x rule: parse_type.induct)
  case (1 raw_type)
  show ?case
  proof (cases "prefix ARRAY_prefix raw_type \<and> suffix '')'' raw_type")
    case True
    with 1(1) obtain t
      where t: "parse_type (slice_to_last (length ARRAY_prefix) raw_type) = Inr t"
        "base_type t \<noteq> T_list"
      by blast
    then have "t \<noteq> T_list" by auto
    with True t show ?thesis
      by (subst parse_type.simps) (simp add: ARRAY_init_def)
  next
    case False
    note not_array = this
    show ?thesis
    proof (cases "prefix NULLABLE_PREFIX raw_type \<and> suffix '')'' raw_type")
      case True
      with not_array 1(2) obtain t
        where "parse_type (slice_to_last (length NULLABLE_PREFIX) raw_type) = Inr t"
          "base_type t \<noteq> T_list"
        by blast
      with not_array True show ?thesis
        by (subst parse_type.simps) simp
    next
      case False
      have "\<And>t. map_of InternalType_python_type raw_type = Some t \<Longrightarrow> base_type t \<noteq> T_list"
        by (auto simp: InternalType_python_type_def split: if_splits)
      with not_array False show ?thesis
        by (subst parse_type.simps) (auto split: option.splits)
    qed
  qed
qed

lemmas parse_type_eval =
  parse_type.simps ARRAY_prefix_def NULLABLE_PREFIX_def InternalType_python_type_def
  slice_to_last_def suffix_def ARRAY_init_def

text \<open>
  Claim C8, as stated, fails: \<open>parse_type(str(parse_type(x)))\<close> is not \<open>parse_type(x)\<close> for
  the well-formed name \<open>Int8\<close>.  \<open>parse_type("Int8")\<close> is the class \<open>int\<close>, whose \<open>str\<close> is
  \<open><class 'int'>\<close>, and that text is no known type name, so parsing it gives \<open>str\<close>.
\<close>

theorem parse_type_reserialize_counterexample:
  "parse_type ''Int8'' = Inr T_int \<and> reparse_type ''Int8'' = Inr T_str
   \<and> reparse_type ''Int8'' \<noteq> parse_type ''Int8''"
  by (simp add: reparse_type_def parse_type_eval)

text \<open>
  Claim C8, amended: for every string \<open>x\<close>, \<open>parse_type(x)\<close> returns a type \<open>t\<close>, and
  \<open>parse_type(str(parse_type(x)))\<close> returns \<open>t\<close> with the same \<open>Array\<close> nesting and \<open>str\<close> in
  place of its scalar base.  So the two are equal exactly when the scalar base of \<open>t\<close> is
  \<open>str\<close> (the names \<open>String\<close>, \<open>Nothing\<close> and every unknown name), and differ for the
  integer, float, date and datetime names.
\<close>

theorem parse_type_reserialize:
  "\<exists>t. parse_type x = Inr t \<and> reparse_type x = Inr (str_based t)
       \<and> (reparse_type x = parse_type x \<longleftrightarrow> base_type t = T_str)"
proof -
  obtain t where t: "parse_type x = Inr t"
    using parse_type_total [of x] by blast
  then have r: "reparse_type x = Inr (str_based t)"
    by (simp add: reparse_type_def parse_type_str_ctype)
  with t show ?thesis
    by (simp add: str_based_fixed)
qed

theorem parse_type_reserialize_witness:
  "parse_type ''Array(Nullable(String))'' = Inr (ARRAY T_str)
   \<and> reparse_type ''Array(Nullable(String))'' = parse_type ''Array(Nullable(String))''"
proof -
  have p: "parse_type ''Array(Nullable(String))'' = Inr (ARRAY T_str)"
    by (simp add: parse_type_eval)
  with parse_type_reserialize [of "''Array(Nullable(String))''"] show ?thesis
    by auto
qed

section \<open>Properties of the statement formatter\<close>

text \<open>
  The exceptions of \<open>format_value\<close>: its own \<open>DataError\<close> for a value of a type it does not
  know, and the two that the conversions raise.
\<close>

lemma format_value_error:
  "format_value p v = Inl e \<Longrightarrow> e \<in> {DataError UnsupportedParameterType, ValueError, OverflowError}"
  "format_values p vs = Inl e \<Longrightarrow> e \<in> {DataError UnsupportedParameterType, ValueError, OverflowError}"
  by (induction p v and p vs arbitrary: e and e rule: format_value_format_values.induct)
    (auto simp: py_str_int_def split: sum.splits if_splits)

lemma format_values_length: "format_values p ps = Inr vs \<Longrightarrow> length vs = length ps"
  by (induction ps arbitrary: vs) (auto split: sum.splits)

lemma format_values_nth:
  "format_values p ps = Inr vs \<Longrightarrow> i < length ps \<Longrightarrow> format_value p (ps ! i) = Inr (vs ! i)"
proof (induction ps arbitrary: vs i)
  case Nil then show ?case by simp
next
  case (Cons a ps)
  then show ?case by (cases i) (auto split: sum.splits)
qed

lemma fill_append:
  "fill p ps (xs @ ys) i =
     (case fill p ps xs i of
        Inl e \<Rightarrow> Inl e
      | Inr (s, j) \<Rightarrow>
          (case fill p ps ys j of Inl e \<Rightarrow> Inl e | Inr (s', k) \<Rightarrow> Inr (s @ s', k)))"
proof (induction xs arbitrary: i)
  case Nil
  show ?case by (simp split: sum.split prod.split)
next
  case (Cons a xs)
  obtain tt v where a: "a = (tt, v)" by (cases a)
  show ?case
    unfolding a by (simp add: Cons.IH split: sum.split prod.split)
qed

lemma process_token_fill:
  "fill p ps (leaves tok) i =
     (case process_token p ps tok i of Inl e \<Rightarrow> Inl e | Inr (t, j) \<Rightarrow> Inr (str_token t, j))"
  "fill p ps (leaves_list toks) i =
     (case process_tokens p ps toks i of Inl e \<Rightarrow> Inl e | Inr (ts, j) \<Rightarrow> Inr (str_tokens ts, j))"
  by (induction p ps tok i and p ps toks i rule: process_token_process_tokens.induct)
    (simp_all add: fill_append split: sum.split prod.split)

lemma count_placeholders_simps [simp]:
  "count_placeholders [] = 0"
  "count_placeholders ((tt, v) # ls) = (if tt = Placeholder then Suc (count_placeholders ls) else count_placeholders ls)"
  by (simp_all add: count_placeholders_def)

text \<open>
  \<open>fill\<close> from the index \<open>i\<close> formats the values at \<open>i\<close>, \<open>i + 1\<close>, ... in this order, one for
  each placeholder, as far as there are values; the first value that cannot be formatted
  ends it with its exception.  Values at or after \<open>i\<close> plus the number of placeholders are
  not looked at.
\<close>

lemma fill_take:
  "i \<le> length ps \<Longrightarrow>
     fill p ps ls i =
       (case format_values p (take (count_placeholders ls) (drop i ps)) of
          Inl e \<Rightarrow> Inl e
        | Inr vs \<Rightarrow>
            if length ps < i + count_placeholders ls then
              Inl (DataError (NotEnoughParameters (length ps)))
            else Inr (substitute ls vs, i + count_placeholders ls))"
proof (induction ls arbitrary: i)
  case Nil
  then show ?case by simp
next
  case (Cons a ls)
  obtain tt v where a: "a = (tt, v)" by (cases a)
  show ?case
  proof (cases "tt = Placeholder")
    case False
    with Cons.IH [OF Cons.prems] a show ?thesis
      by (simp split: sum.split)
  next
    case True
    show ?thesis
    proof (cases "i < length ps")
      case False
      with Cons.prems True a show ?thesis by simp
    next
      case i: True
      then have d: "drop i ps = ps ! i # drop (Suc i) ps"
        by (simp add: Cons_nth_drop_Suc)
      from i have "Suc i \<le> length ps" by simp
      from Cons.IH [OF this] d i True a show ?thesis
        by (simp split: sum.split)
    qed
  qed
qed

lemma format_values_take:
  "format_values p ps = Inr vs \<Longrightarrow> format_values p (take k ps) = Inr (take k vs)"
proof (induction ps arbitrary: vs k)
  case Nil
  then show ?case by simp
next
  case (Cons a ps)
  then show ?case by (cases k) (auto split: sum.splits)
qed

lemma format_statement_fill:
  "format_statement p st ps =
     (case fill p ps (leaves st) 0 of
        Inl e \<Rightarrow> Inl e
      | Inr (s, j) \<Rightarrow>
          if j < length ps then Inl (DataError (TooManyParameters (length ps) j))
          else Inr (rstrip_semicolon s))"
  by (simp add: format_statement_def process_token_fill(1) split: sum.split prod.split)

lemma format_statement_take:
  "format_statement p st ps =
     (case format_values p (take (placeholders st) ps) of
        Inl e \<Rightarrow> Inl e
      | Inr vs \<Rightarrow>
          if length ps < placeholders st then
            Inl (DataError (NotEnoughParameters (length ps)))
          else if placeholders st < length ps then
            Inl (DataError (TooManyParameters (length ps) (placeholders st)))
          else Inr (rstrip_semicolon (substitute (leaves st) vs)))"
  using fill_take [of 0 ps p "leaves st"]
  by (simp add: format_statement_fill placeholders_def split: sum.split)

lemma py_str_int_1: "py_str_int sample_py 1 = Inr ''1''"
  by (simp add: py_str_int_def sample_py_def str_int_def str_nat.simps)

text \<open>
  Claim C4 as it is worded, at a statement with two placeholders and one value, a
  timezone-aware \<open>datetime\<close> of the first day of year 1, one hour ahead of UTC.  There are
  fewer values than placeholders, and the exception is not a \<open>DataError\<close>: the first
  placeholder reaches the value, \<open>astimezone\<close> raises \<open>OverflowError\<close>, and nothing catches
  it.  The same happens with three values, more than there are placeholders.
\<close>

theorem format_statement_overflow_counterexample:
  "length [P_datetime (DateTime (Date 1 1 1) 0 0 0 0 (Some 3600))]
     < placeholders (hd (sample_parse_sql ''SELECT ?, ?''))
   \<and> format_statement sample_py (hd (sample_parse_sql ''SELECT ?, ?''))
        [P_datetime (DateTime (Date 1 1 1) 0 0 0 0 (Some 3600))]
      = Inl OverflowError
   \<and> placeholders (hd (sample_parse_sql ''SELECT ?, ?''))
     < length [P_datetime (DateTime (Date 1 1 1) 0 0 0 0 (Some 3600)), P_int 1, P_int 2]
   \<and> format_statement sample_py (hd (sample_parse_sql ''SELECT ?, ?''))
        [P_datetime (DateTime (Date 1 1 1) 0 0 0 0 (Some 3600)), P_int 1, P_int 2]
      = Inl OverflowError"
  by (simp add: format_statement_def sample_parse_sql_def kw_def placeholders_def)

text \<open>
  Claim C4, amended: \<open>format_statement\<close> on a statement \<open>st\<close> and a parameter set \<open>ps\<close>.
  The placeholders are filled from left to right, one value each, so the values looked at
  are the first ones of \<open>ps\<close>, as many as there are placeholders (all of \<open>ps\<close> when it has
  fewer).
  \<^item> When one of these values cannot be formatted, the exception of \<open>format_value\<close> on the
    first such value is the exception of \<open>format_statement\<close>: the \<open>DataError\<close> ``unsupported
    parameter type'', or the \<open>ValueError\<close> or \<open>OverflowError\<close> of a conversion.
  \<^item> When all of them can be formatted: with fewer values than placeholders the exception is
    the \<open>DataError\<close> ``not enough parameters''; with more values than placeholders it is the
    \<open>DataError\<close> ``too many parameters'', with the number of placeholders as the number
    used; with as many values as placeholders the result is the text of the leaves in which
    the placeholders, from left to right, are replaced by the formatted values in their
    order, without its trailing semicolons.
\<close>

theorem format_statement_parameters:
  "(\<forall>e. format_values p (take (placeholders st) ps) = Inl e \<longrightarrow>
      format_statement p st ps = Inl e
      \<and> e \<in> {DataError UnsupportedParameterType, ValueError, OverflowError}) \<and>
   (\<forall>vs. format_values p (take (placeholders st) ps) = Inr vs \<longrightarrow>
      (length ps < placeholders st \<longrightarrow>
         format_statement p st ps = Inl (DataError (NotEnoughParameters (length ps)))) \<and>
      (placeholders st < length ps \<longrightarrow>
         format_statement p st ps =
           Inl (DataError (TooManyParameters (length ps) (placeholders st)))) \<and>
      (length ps = placeholders st \<longrightarrow>
         format_statement p st ps = Inr (rstrip_semicolon (substitute (leaves st) vs))))"
proof (intro conjI impI allI)
  fix e
  assume e: "format_values p (take (placeholders st) ps) = Inl e"
  then show "format_statement p st ps = Inl e"
    by (simp add: format_statement_take)
  from e show "e \<in> {DataError UnsupportedParameterType, ValueError, OverflowError}"
    by (rule format_value_error(2))
next
  fix vs
  assume "format_values p (take (placeholders st) ps) = Inr vs" "length ps < placeholders st"
  then show "format_statement p st ps = Inl (DataError (NotEnoughParameters (length ps)))"
    by (simp add: format_statement_take)
next
  fix vs
  assume "format_values p (take (placeholders st) ps) = Inr vs" "placeholders st < length ps"
  then show "format_statement p st ps =
      Inl (DataError (TooManyParameters (length ps) (placeholders st)))"
    by (simp add: format_statement_take)
next
  fix vs
  assume "format_values p (take (placeholders st) ps) = Inr vs" "length ps = placeholders st"
  then show "format_statement p st ps = Inr (rstrip_semicolon (substitute (leaves st) vs))"
    by (simp add: format_statement_take)
qed

theorem format_statement_parameters_witness:
  "format_statement sample_py (hd (sample_parse_sql ''SELECT ?, ?'')) [P_int 1]
     = Inl (DataError (NotEnoughParameters 1))
   \<and> format_statement sample_py (hd (sample_parse_sql ''SELECT ?, ?''))
       [P_int 1, P_str ''a'', P_None]
     = Inl (DataError (TooManyParameters 3 2))
   \<and> format_statement sample_py (hd (sample_parse_sql ''SELECT ?, ?'')) [P_int 1, P_str ''a'']
     = Inr (''SELECT 1, '' @ [CHR 0x27, CHR ''a'', CHR 0x27])
   \<and> format_statement sample_py (hd (sample_parse_sql ''SELECT ?, ?'')) [P_int 1, P_other]
     = Inl (DataError UnsupportedParameterType)"
proof -
  let ?st = "hd (sample_parse_sql ''SELECT ?, ?'')"
  have n: "placeholders ?st = 2"
    by (simp add: sample_parse_sql_def placeholders_def kw_def)
  have l: "leaves ?st = [(OtherType, ''SELECT''), (OtherType, '' ''), (Placeholder, ''?''),
      (OtherType, '',''), (OtherType, '' ''), (Placeholder, ''?'')]"
    by (simp add: sample_parse_sql_def kw_def)
  have v1: "format_values sample_py [P_int 1] = Inr [''1'']"
    and v2: "format_values sample_py [P_int 1, P_str ''a'']
      = Inr [''1'', [CHR 0x27, CHR ''a'', CHR 0x27]]"
    and v4: "format_values sample_py [P_int 1, P_other] = Inl (DataError UnsupportedParameterType)"
    by (simp_all add: py_str_int_1 escape_char_def)
  from format_statement_parameters [of sample_py ?st "[P_int 1]"] n v1
  have a: "format_statement sample_py ?st [P_int 1] = Inl (DataError (NotEnoughParameters 1))"
    by simp
  from format_statement_parameters [of sample_py ?st "[P_int 1, P_str ''a'', P_None]"] n v2
  have b: "format_statement sample_py ?st [P_int 1, P_str ''a'', P_None]
      = Inl (DataError (TooManyParameters 3 2))"
    by simp
  from format_statement_parameters [of sample_py ?st "[P_int 1, P_str ''a'']"] n v2 l
  have c: "format_statement sample_py ?st [P_int 1, P_str ''a'']
      = Inr (''SELECT 1, '' @ [CHR 0x27, CHR ''a'', CHR 0x27])"
    by (simp add: rstrip_semicolon_def)
  from format_statement_parameters [of sample_py ?st "[P_int 1, P_other]"] n v4
  have d: "format_statement sample_py ?st [P_int 1, P_other]
      = Inl (DataError UnsupportedParameterType)"
    by simp
  from a b c d show ?thesis by simp
qed

text \<open>
  Claim C5: when the tokenizer finds more than one statement in the query and the
  sequence of parameter sets is not empty, \<open>split_format_sql\<close> raises
  \<open>NotSupportedError\<close>; no statement is formatted.
\<close>

theorem split_format_sql_multistatement:
  "1 < length (parse_sql p query) \<Longrightarrow> parameters \<noteq> [] \<Longrightarrow>
     split_format_sql p query parameters = Inl NotSupportedError"
  by (auto simp: split_format_sql_def Let_def)

theorem split_format_sql_multistatement_witness:
  "1 < length (parse_sql sample_py ''SELECT 1; SELECT 2'') \<and> [[P_int 1]] \<noteq> []
   \<and> split_format_sql sample_py ''SELECT 1; SELECT 2'' [[P_int 1]] = Inl NotSupportedError"
proof -
  have two: "1 < length (parse_sql sample_py ''SELECT 1; SELECT 2'')"
    by (simp add: sample_py_def sample_parse_sql_def)
  have some: "[[P_int 1]] \<noteq> []"
    by simp
  from two some split_format_sql_multistatement [OF two some] show ?thesis
    by simp
qed

section \<open>Statements without parameters\<close>

lemma rev_dropWhile_takeWhile:
  "rev (dropWhile P (rev m)) @ rev (takeWhile P (rev m)) = m"
proof -
  have "rev (takeWhile P (rev m) @ dropWhile P (rev m)) = m"
    by simp
  then show ?thesis
    by (simp only: rev_append)
qed

lemma strip_decompose:
  "\<exists>l r. s = l @ strip s @ r \<and> list_all isspace l \<and> list_all isspace r
         \<and> (strip s = [] \<or> (\<not> isspace (hd (strip s)) \<and> \<not> isspace (last (strip s))))"
proof -
  define m where "m = dropWhile isspace s"
  define l where "l = takeWhile isspace s"
  define r where "r = rev (takeWhile isspace (rev m))"
  have core: "strip s = rev (dropWhile isspace (rev m))"
    by (simp add: strip_def m_def)
  have m: "m = strip s @ r"
    unfolding core r_def by (rule rev_dropWhile_takeWhile [symmetric])
  have "s = l @ m"
    by (simp add: l_def m_def)
  with m have s: "s = l @ strip s @ r"
    by simp
  have wl: "list_all isspace l"
    by (auto simp: l_def list_all_iff dest: set_takeWhileD)
  have wr: "list_all isspace r"
    by (auto simp: r_def list_all_iff dest: set_takeWhileD)
  have ends: "\<not> isspace (hd (strip s)) \<and> \<not> isspace (last (strip s))" if ne: "strip s \<noteq> []"
  proof
    from ne m have "m \<noteq> []" and "hd m = hd (strip s)" by auto
    then show "\<not> isspace (hd (strip s))"
      using hd_dropWhile [of isspace s] by (simp add: m_def)
  next
    from ne have d: "dropWhile isspace (rev m) \<noteq> []" by (simp add: core)
    then have "\<not> isspace (hd (dropWhile isspace (rev m)))" by (rule hd_dropWhile)
    with d show "\<not> isspace (last (strip s))" by (simp add: core last_rev)
  qed
  from s wl wr ends show ?thesis by blast
qed

lemma rstrip_semicolon_decompose:
  "\<exists>k. s = rstrip_semicolon s @ replicate k (CHR '';'')
       \<and> (rstrip_semicolon s = [] \<or> last (rstrip_semicolon s) \<noteq> CHR '';'')"
proof -
  let ?P = "\<lambda>c. c = CHR '';''"
  define t where "t = takeWhile ?P (rev s)"
  have t: "t = replicate (length t) (CHR '';'')"
    by (rule replicate_eqI) (auto simp: t_def dest: set_takeWhileD)
  have "s = rstrip_semicolon s @ rev t"
    unfolding rstrip_semicolon_def t_def by (rule rev_dropWhile_takeWhile [symmetric])
  moreover have "rev t = replicate (length t) (CHR '';'')"
    using t by (metis rev_replicate)
  ultimately have s: "s = rstrip_semicolon s @ replicate (length t) (CHR '';'')"
    by simp
  have "last (rstrip_semicolon s) \<noteq> CHR '';''" if "rstrip_semicolon s \<noteq> []"
  proof -
    from that have d: "dropWhile ?P (rev s) \<noteq> []" by (simp add: rstrip_semicolon_def)
    then have "\<not> ?P (hd (dropWhile ?P (rev s)))" by (rule hd_dropWhile)
    with d show ?thesis by (simp add: rstrip_semicolon_def last_rev)
  qed
  with s show ?thesis by blast
qed

lemmas sample_eval =
  sample_py_def sample_parse_sql_def kw_def split_format_sql_def strip_def isspace_def
  rstrip_semicolon_def

text \<open>
  Claim C10, as stated, fails: with no parameter sets, the text returned for a statement
  is not the statement's text trimmed at its end only.  The statement of the query
  \<open>" SELECT 1;"\<close> has the text \<open>" SELECT 1;"\<close>; trimmed of trailing whitespace and one
  trailing semicolon it is \<open>" SELECT 1"\<close>, but \<open>split_format_sql\<close> returns \<open>"SELECT 1"\<close>,
  which is not even a prefix of the statement: \<open>strip()\<close> removes the leading whitespace too.
\<close>

theorem split_format_sql_trailing_counterexample:
  "map str_token (parse_sql sample_py '' SELECT 1;'') = ['' SELECT 1;'']
   \<and> split_format_sql sample_py '' SELECT 1;'' [] = Inr [''SELECT 1'']
   \<and> map trim_trailing ['' SELECT 1;''] = ['' SELECT 1'']
   \<and> \<not> prefix ''SELECT 1'' '' SELECT 1;''"
  by (simp add: sample_eval trim_trailing_def rstrip_whitespace_def)

text \<open>
  Claim C10, amended: with no parameter sets \<open>split_format_sql\<close> never raises.  When the
  tokenizer finds no statement it returns the query itself; otherwise it returns one text per
  statement, in order, and each is the statement's text with the whitespace at both of its
  ends removed and then every trailing semicolon removed: the statement's text is whitespace
  \<open>l\<close>, the returned text, \<open>k\<close> semicolons and whitespace \<open>r\<close>, where the returned text does
  not end in a semicolon and the text between \<open>l\<close> and \<open>r\<close> neither starts nor ends with
  whitespace.
\<close>

theorem split_format_sql_no_parameters:
  "\<exists>out. split_format_sql p query [] = Inr out \<and>
     (if parse_sql p query = [] then out = [query]
      else length out = length (parse_sql p query) \<and>
        (\<forall>i < length out. \<exists>l k r.
            str_token (parse_sql p query ! i) = l @ out ! i @ replicate k (CHR '';'') @ r
          \<and> list_all isspace l \<and> list_all isspace r
          \<and> (out ! i = [] \<or> last (out ! i) \<noteq> CHR '';'')
          \<and> (out ! i @ replicate k (CHR '';'') = []
              \<or> (\<not> isspace (hd (out ! i @ replicate k (CHR '';'')))
                  \<and> \<not> isspace (last (out ! i @ replicate k (CHR '';'')))))))"
proof (cases "parse_sql p query = []")
  case True
  then show ?thesis
    by (simp add: split_format_sql_def)
next
  case False
  define out where "out = map (\<lambda>st. rstrip_semicolon (strip (str_token st))) (parse_sql p query)"
  have res: "split_format_sql p query [] = Inr out"
    using False by (simp add: split_format_sql_def out_def)
  have len: "length out = length (parse_sql p query)"
    by (simp add: out_def)
  have each: "\<exists>l k r.
       str_token (parse_sql p query ! i) = l @ out ! i @ replicate k (CHR '';'') @ r
     \<and> list_all isspace l \<and> list_all isspace r
     \<and> (out ! i = [] \<or> last (out ! i) \<noteq> CHR '';'')
     \<and> (out ! i @ replicate k (CHR '';'') = []
         \<or> (\<not> isspace (hd (out ! i @ replicate k (CHR '';'')))
             \<and> \<not> isspace (last (out ! i @ replicate k (CHR '';'')))))"
    if i: "i < length out" for i
  proof -
    let ?s = "str_token (parse_sql p query ! i)"
    from i have o: "out ! i = rstrip_semicolon (strip ?s)"
      by (simp add: out_def)
    obtain l r where s: "?s = l @ strip ?s @ r" and wl: "list_all isspace l"
      and wr: "list_all isspace r"
      and ends: "strip ?s = [] \<or> (\<not> isspace (hd (strip ?s)) \<and> \<not> isspace (last (strip ?s)))"
      using strip_decompose [of ?s] by blast
    obtain k where k: "strip ?s = out ! i @ replicate k (CHR '';'')"
      and nosemi: "out ! i = [] \<or> last (out ! i) \<noteq> CHR '';''"
      using rstrip_semicolon_decompose [of "strip ?s"] o by auto
    from s k have "?s = l @ out ! i @ replicate k (CHR '';'') @ r"
      by simp
    moreover from ends k have "out ! i @ replicate k (CHR '';'') = []
         \<or> (\<not> isspace (hd (out ! i @ replicate k (CHR '';'')))
             \<and> \<not> isspace (last (out ! i @ replicate k (CHR '';''))))"
      by simp
    ultimately show ?thesis
      using wl wr nosemi by blast
  qed
  from res len each False show ?thesis
    by auto
qed

theorem split_format_sql_no_parameters_witness:
  "split_format_sql sample_py '' SELECT 1;'' [] = Inr [''SELECT 1'']
   \<and> (\<exists>l k r. '' SELECT 1;'' = l @ ''SELECT 1'' @ replicate k (CHR '';'') @ r
         \<and> list_all isspace l \<and> list_all isspace r)"
proof -
  have v: "split_format_sql sample_py '' SELECT 1;'' [] = Inr [''SELECT 1'']"
    by (simp add: sample_eval)
  have st: "parse_sql sample_py '' SELECT 1;''
      = [TokenList [kw '' '', kw ''SELECT'', kw '' '', kw ''1'', kw '';'']]"
    by (simp add: sample_py_def sample_parse_sql_def)
  have tx: "str_token (TokenList [kw '' '', kw ''SELECT'', kw '' '', kw ''1'', kw '';''])
      = '' SELECT 1;''"
    by (simp add: kw_def)
  from split_format_sql_no_parameters [of sample_py "'' SELECT 1;''"] v st
  have "\<forall>i < length [''SELECT 1'']. \<exists>l k r.
      str_token ([TokenList [kw '' '', kw ''SELECT'', kw '' '', kw ''1'', kw '';'']] ! i)
        = l @ [''SELECT 1''] ! i @ replicate k (CHR '';'') @ r
      \<and> list_all isspace l \<and> list_all isspace r"
    by auto
  then have "\<exists>l k r.
      str_token ([TokenList [kw '' '', kw ''SELECT'', kw '' '', kw ''1'', kw '';'']] ! 0)
        = l @ [''SELECT 1''] ! 0 @ replicate k (CHR '';'') @ r
      \<and> list_all isspace l \<and> list_all isspace r"
    by simp
  with tx v show ?thesis
    by simp
qed

section \<open>Properties of \<open>parse_value\<close>\<close>

lemma parse_items_map_raise:
  "parse_items p its t = map_raise (\<lambda>it. parse_value p it t) its"
  by (induction its) (simp_all split: sum.split)

text \<open>
  Claim C7, as stated, fails: a mismatch between the type and the shape of the value does
  not always raise \<open>DataError\<close>.  For the types \<open>int\<close> and \<open>float\<close> the conversion is the
  type's own constructor, so a list under the type \<open>int\<close> raises the \<open>TypeError\<close> of
  \<open>int([])\<close>.
\<close>

theorem parse_value_mismatch_counterexample:
  "parse_value sample_py (R_list []) T_int = Inl TypeError
   \<and> parse_value sample_py (R_list []) T_float = Inl TypeError"
  by simp

text \<open>
  Claim C7, amended: for every type, \<open>None\<close> is returned unchanged.  A value that is
  neither \<open>None\<close> nor a string raises \<open>DataError\<close> under the types \<open>date\<close> and
  \<open>datetime\<close>; a value other than \<open>None\<close> under a type that is none of \<open>int\<close>, \<open>str\<close>,
  \<open>float\<close>, \<open>date\<close>, \<open>datetime\<close> or an array raises \<open>DataError\<close>; a list under an array
  type is converted element by element with the subtype, the first exception of an element
  being the exception of the whole.  The types \<open>int\<close> and \<open>float\<close> convert with their own
  constructor, whose exception (as the \<open>TypeError\<close> for a list) is what is raised.
\<close>

theorem parse_value_cases:
  "parse_value p R_None t = Inr C_None
   \<and> (v \<noteq> R_None \<and> (\<forall>s. v \<noteq> R_str s) \<longrightarrow>
        parse_value p v T_date = Inl (DataError InvalidDateValue)
        \<and> parse_value p v T_datetime = Inl (DataError InvalidDatetimeValue))
   \<and> (v \<noteq> R_None \<and> t \<in> {T_bool, T_list, T_NoneType} \<longrightarrow>
        parse_value p v t = Inl (DataError UnsupportedDataType))
   \<and> parse_value p (R_list its) (ARRAY t) =
        (case map_raise (\<lambda>it. parse_value p it t) its of
           Inl e \<Rightarrow> Inl e
         | Inr vs \<Rightarrow> Inr (C_list vs))
   \<and> parse_value p (R_list its) T_int = Inl TypeError
   \<and> parse_value p (R_list its) T_float = Inl TypeError"
proof (intro conjI impI)
  show "parse_value p R_None t = Inr C_None"
    by simp
next
  assume "v \<noteq> R_None \<and> (\<forall>s. v \<noteq> R_str s)"
  then show "parse_value p v T_date = Inl (DataError InvalidDateValue)"
    by (cases v) simp_all
next
  assume "v \<noteq> R_None \<and> (\<forall>s. v \<noteq> R_str s)"
  then show "parse_value p v T_datetime = Inl (DataError InvalidDatetimeValue)"
    by (cases v) simp_all
next
  assume "v \<noteq> R_None \<and> t \<in> {T_bool, T_list, T_NoneType}"
  then show "parse_value p v t = Inl (DataError UnsupportedDataType)"
    by (cases v) auto
next
  show "parse_value p (R_list its) (ARRAY t) =
      (case map_raise (\<lambda>it. parse_value p it t) its of
         Inl e \<Rightarrow> Inl e
       | Inr vs \<Rightarrow> Inr (C_list vs))"
    by (simp add: parse_items_map_raise)
qed simp_all

theorem parse_value_cases_witness:
  "parse_value sample_py R_None (ARRAY T_date) = Inr C_None
   \<and> parse_value sample_py (R_int 3) T_date = Inl (DataError InvalidDateValue)
   \<and> parse_value sample_py (R_int 3) T_datetime = Inl (DataError InvalidDatetimeValue)
   \<and> parse_value sample_py (R_int 3) T_bool = Inl (DataError UnsupportedDataType)
   \<and> parse_value sample_py (R_list [R_int 3, R_None]) (ARRAY T_int)
       = Inr (C_list [C_int 3, C_None])"
proof -
  have a: "R_int 3 \<noteq> R_None \<and> (\<forall>s. R_int 3 \<noteq> R_str s)"
    by simp
  have b: "R_int 3 \<noteq> R_None \<and> T_bool \<in> {T_bool, T_list, T_NoneType}"
    by simp
  from parse_value_cases [of sample_py "ARRAY T_date" "R_int 3" "[R_int 3, R_None]"]
  have 1: "parse_value sample_py R_None (ARRAY T_date) = Inr C_None"
    by blast
  from parse_value_cases [of sample_py T_bool "R_int 3" "[]"] a b
  have 2: "parse_value sample_py (R_int 3) T_date = Inl (DataError InvalidDateValue)"
    and 3: "parse_value sample_py (R_int 3) T_datetime = Inl (DataError InvalidDatetimeValue)"
    and 4: "parse_value sample_py (R_int 3) T_bool = Inl (DataError UnsupportedDataType)"
    by blast+
  from parse_value_cases [of sample_py T_int "R_int 3" "[R_int 3, R_None]"]
  have 5: "parse_value sample_py (R_list [R_int 3, R_None]) (ARRAY T_int)
      = Inr (C_list [C_int 3, C_None])"
    by simp
  from 1 2 3 4 5 show ?thesis
    by blast
qed

text \<open>
  Under an array type a value that is not a list is caught by the \<open>assert\<close> only, so the
  exception is an \<open>AssertionError\<close>; the amended claim says nothing about this case.
\<close>

lemma parse_value_array_not_list:
  "v \<noteq> R_None \<Longrightarrow> (\<forall>its. v \<noteq> R_list its) \<Longrightarrow> parse_value p v (ARRAY t) = Inl AssertionError"
  by (cases v) simp_all

section \<open>Properties of the cursor\<close>

lemma map_raise_length: "map_raise f xs = Inr ys \<Longrightarrow> length ys = length xs"
  by (induction xs arbitrary: ys) (auto split: sum.splits)

lemma response_row_set_paired: "response_row_set resp = Inr rs \<Longrightarrow> paired_set rs"
  by (auto simp: response_row_set_def query_data_row_set_def paired_set_def
      split: if_splits sum.splits option.splits)

lemma loading_reset: "loading (reset c)"
  by (simp add: loading_def reset_def)

lemma paired_reset: "paired (reset c)"
  by (simp add: paired_def reset_def active_set_def paired_set_def)

lemma append_query_data_Inr:
  assumes "append_query_data c resp = Inr c'" and "loading c"
  shows "loading c'"
    and "\<exists>rs. response_row_set resp = Inr rs \<and> row_sets c' = row_sets c @ [rs]"
    and "paired c \<Longrightarrow> paired c'"
proof -
  from assms(1) obtain rs where rs: "response_row_set resp = Inr rs"
    by (auto simp: append_query_data_def split: sum.splits)
  obtain rc d r where t: "rs = (rc, d, r)"
    by (cases rs)
  from response_row_set_paired [OF rs] have prs: "paired_set rs" .
  show "loading c'"
  proof (cases "row_sets c = []")
    case True
    with assms rs t show ?thesis
      by (auto simp: append_query_data_def Let_def loading_def pop_next_set_def active_set_def)
  next
    case False
    with assms rs t show ?thesis
      by (auto simp: append_query_data_def Let_def loading_def pop_next_set_def active_set_def
          nth_append)
  qed
  show "\<exists>rs. response_row_set resp = Inr rs \<and> row_sets c' = row_sets c @ [rs]"
  proof (cases "row_sets c = []")
    case True
    with assms rs t show ?thesis
      by (auto simp: append_query_data_def Let_def loading_def pop_next_set_def)
  next
    case False
    with assms rs t show ?thesis
      by (auto simp: append_query_data_def Let_def loading_def pop_next_set_def)
  qed
  show "paired c'" if "paired c"
  proof (cases "row_sets c = []")
    case True
    with assms rs t prs that show ?thesis
      by (auto simp: append_query_data_def Let_def loading_def pop_next_set_def paired_def
          active_set_def)
  next
    case False
    with assms rs t prs that show ?thesis
      by (auto simp: append_query_data_def Let_def loading_def pop_next_set_def paired_def
          active_set_def)
  qed
qed

text \<open>Whatever the cursor holds, a decoded row set keeps it \<open>paired\<close>.\<close>

lemma append_query_data_paired:
  assumes "append_query_data c resp = Inr c'" and "paired c"
  shows "paired c'"
proof -
  from assms(1) obtain rs where rs: "response_row_set resp = Inr rs"
    by (auto simp: append_query_data_def split: sum.splits)
  from response_row_set_paired [OF rs] have prs: "paired_set rs" .
  let ?c1 = "c\<lparr>row_sets := row_sets c @ [rs]\<rparr>"
  from assms(2) prs have all: "list_all paired_set (row_sets ?c1)" and p1: "paired ?c1"
    by (simp_all add: paired_def active_set_def)
  show ?thesis
  proof (cases "next_set_idx c = 0")
    case False
    with assms(1) rs have "c' = ?c1"
      by (simp add: append_query_data_def Let_def)
    with p1 show ?thesis by simp
  next
    case True
    obtain rc d r where t: "row_sets ?c1 ! 0 = (rc, d, r)"
      by (cases "row_sets ?c1 ! 0")
    have mem: "row_sets ?c1 ! 0 \<in> set (row_sets ?c1)"
      by (rule nth_mem) simp
    from all have "\<forall>x\<in>set (row_sets ?c1). paired_set x"
      unfolding list_all_iff .
    with mem have "paired_set (row_sets ?c1 ! 0)"
      by blast
    with t have "paired_set (rc, d, r)" by simp
    moreover from assms(1) rs True t
    have "c' = ?c1\<lparr>rowcount := rc, descriptions := d, rows := r, idx := 0, next_set_idx := 1\<rparr>"
      by (simp add: append_query_data_def Let_def pop_next_set_def)
    ultimately show ?thesis
      using all by (simp add: paired_def active_set_def)
  qed
qed

lemma run_query_None:
  assumes "run_query n sp c q t = (None, c', t')" and "loading c"
  shows "loading c'" and "length (row_sets c') = Suc (length (row_sets c))"
    and "paired c \<Longrightarrow> paired c'"
proof -
  from assms(1) obtain resp where a: "append_query_data c resp = Inr c'"
    by (auto simp: run_query_def split: prod.splits sum.splits option.splits)
  from append_query_data_Inr [OF a assms(2)]
  show "loading c'" and "length (row_sets c') = Suc (length (row_sets c))"
    and "paired c \<Longrightarrow> paired c'"
    by auto
qed

lemma run_query_Some:
  assumes "run_query n sp c q t = (Some e, c', t')" and "loading c"
  shows "c' = c"
proof -
  have "\<not> closed c''" if "append_query_data c resp = Inr c''" for resp c''
    using append_query_data_Inr(1) [OF that assms(2)] by (simp add: loading_def closed_def)
  with assms(1) show ?thesis
    by (auto simp: run_query_def rowcount_property_def
        split: prod.splits sum.splits option.splits if_splits)
qed

lemma run_queries_loading:
  assumes "run_queries n sp c qs t = (r, c', t')" and "loading c"
  shows "loading c' \<and> (paired c \<longrightarrow> paired c')
         \<and> (r = None \<longrightarrow> length (row_sets c') = length (row_sets c) + length qs)"
  using assms
proof (induction qs arbitrary: c t)
  case Nil
  then show ?case by simp
next
  case (Cons q qs)
  obtain r1 c1 t1 where q: "run_query n sp c q t = (r1, c1, t1)"
    by (cases "run_query n sp c q t")
  show ?case
  proof (cases r1)
    case None
    with q Cons.prems(1) have rest: "run_queries n sp c1 qs t1 = (r, c', t')"
      by simp
    from q None run_query_None [of n sp c q t c1 t1] Cons.prems(2)
    have 1: "loading c1" "length (row_sets c1) = Suc (length (row_sets c))"
      "paired c \<Longrightarrow> paired c1"
      by auto
    from Cons.IH [OF rest 1(1)] 1 show ?thesis
      by auto
  next
    case (Some e)
    with q Cons.prems(1) have "r = Some e" "c' = c1"
      by auto
    moreover from q Some run_query_Some [of n sp c q t e c1 t1] Cons.prems(2) have "c1 = c"
      by simp
    ultimately show ?thesis
      using Cons.prems(2) by simp
  qed
qed

text \<open>
  A loop that raises has run some of its statements to the end and then raised in the
  next one, which left the cursor as it found it.
\<close>

lemma run_queries_Some:
  assumes "run_queries n sp c qs t = (Some e, c', t')" and "loading c"
  shows "\<exists>k tk. k < length qs \<and> run_queries n sp c (take k qs) t = (None, c', tk)
           \<and> run_query n sp c' (qs ! k) tk = (Some e, c', t')"
  using assms
proof (induction qs arbitrary: c t)
  case Nil
  then show ?case by simp
next
  case (Cons q qs)
  obtain r1 c1 t1 where q: "run_query n sp c q t = (r1, c1, t1)"
    by (cases "run_query n sp c q t")
  show ?case
  proof (cases r1)
    case None
    with q Cons.prems(1) have rest: "run_queries n sp c1 qs t1 = (Some e, c', t')"
      by simp
    from q None run_query_None(1) [of n sp c q t c1 t1] Cons.prems(2) have "loading c1"
      by simp
    from Cons.IH [OF rest this] obtain k tk
      where k: "k < length qs" "run_queries n sp c1 (take k qs) t1 = (None, c', tk)"
        "run_query n sp c' (qs ! k) tk = (Some e, c', t')"
      by blast
    with q None have "Suc k < length (q # qs)
        \<and> run_queries n sp c (take (Suc k) (q # qs)) t = (None, c', tk)
        \<and> run_query n sp c' ((q # qs) ! Suc k) tk = (Some e, c', t')"
      by simp
    then show ?thesis
      by blast
  next
    case (Some e1)
    with q Cons.prems(1) have eq: "e = e1" "c' = c1" "t' = t1"
      by auto
    from q Some run_query_Some [of n sp c q t e1 c1 t1] Cons.prems(2) have "c1 = c"
      by simp
    with q Some eq have "0 < length (q # qs)
        \<and> run_queries n sp c (take 0 (q # qs)) t = (None, c', t)
        \<and> run_query n sp c' ((q # qs) ! 0) t = (Some e, c', t')"
      by simp
    then show ?thesis
      by blast
  qed
qed


text \<open>
  The handler on a cursor still in the loop: the state becomes \<open>ERROR\<close> for an
  \<open>Exception\<close> and stays \<open>NONE\<close> for any other exception.
\<close>

lemma except_Exception_loading:
  "loading c \<Longrightarrow> except_Exception c e = c\<lparr>state := (if is_Exception e then ERROR else NONE)\<rparr>"
  by (simp add: except_Exception_def loading_def)

lemma split_format_sql_not_empty: "split_format_sql p query pss = Inr queries \<Longrightarrow> queries \<noteq> []"
proof -
  assume a: "split_format_sql p query pss = Inr queries"
  show ?thesis
  proof (cases "parse_sql p query = []")
    case True
    with a show ?thesis by (auto simp: split_format_sql_def)
  next
    case False
    note st = this
    show ?thesis
    proof (cases "pss = []")
      case True
      with a st show ?thesis by (auto simp: split_format_sql_def)
    next
      case False
      with a st have "map_raise (format_statement p (parse_sql p query ! 0)) pss = Inr queries"
        by (auto simp: split_format_sql_def Let_def split: if_splits)
      from map_raise_length [OF this] False show ?thesis
        by auto
    qed
  qed
qed

text \<open>What a call of \<open>_do_execute_request\<close> that raises leaves behind.\<close>

lemma do_execute_request_Some:
  assumes "do_execute_request n p c query pss sp t = (Some e, c', t')"
  shows "split_format_sql p query pss = Inl e \<and> c' = except_Exception (reset c) e \<and> t' = t
         \<or> (\<exists>queries k ck tk.
               split_format_sql p query pss = Inr queries \<and> k < length queries
             \<and> run_queries n sp (reset c) (take k queries) t = (None, ck, tk)
             \<and> run_query n sp ck (queries ! k) tk = (Some e, ck, t')
             \<and> loading ck \<and> length (row_sets ck) = k
             \<and> c' = except_Exception ck e)"
proof (cases "split_format_sql p query pss")
  case (Inl e1)
  with assms show ?thesis
    by (auto simp: do_execute_request_def Let_def)
next
  case (Inr queries)
  obtain r1 c1 t1 where q: "run_queries n sp (reset c) queries t = (r1, c1, t1)"
    by (cases "run_queries n sp (reset c) queries t")
  with assms Inr have r1: "r1 = Some e" and c': "c' = except_Exception c1 e" and t': "t' = t1"
    by (auto simp: do_execute_request_def Let_def split: option.splits)
  from run_queries_Some [OF q [unfolded r1] loading_reset] obtain k tk
    where k: "k < length queries"
      "run_queries n sp (reset c) (take k queries) t = (None, c1, tk)"
      "run_query n sp c1 (queries ! k) tk = (Some e, c1, t1)"
    by blast
  from run_queries_loading [OF k(2) loading_reset] k(1)
  have "loading c1" "length (row_sets c1) = k"
    by (auto simp: reset_def)
  with Inr k c' t' show ?thesis
    by blast
qed

lemma do_execute_request_None:
  assumes "do_execute_request n p c query pss sp t = (None, c', t')"
  shows "\<exists>c1. loading c1 \<and> paired c1 \<and> row_sets c1 \<noteq> [] \<and> c' = c1\<lparr>state := DONE\<rparr>"
proof -
  from assms obtain queries where s: "split_format_sql p query pss = Inr queries"
    by (cases "split_format_sql p query pss") (auto simp: do_execute_request_def Let_def)
  obtain r1 c1 t1 where q: "run_queries n sp (reset c) queries t = (r1, c1, t1)"
    by (cases "run_queries n sp (reset c) queries t")
  with assms s have r1: "r1 = None" and c': "c' = c1\<lparr>state := DONE\<rparr>"
    by (auto simp: do_execute_request_def Let_def split: option.splits)
  from run_queries_loading [OF q loading_reset] paired_reset [of c] r1
  have "loading c1" "paired c1" "length (row_sets c1) = length queries"
    by (auto simp: reset_def)
  with split_format_sql_not_empty [OF s] c' show ?thesis
    by auto
qed

text \<open>
  The fetch methods and \<open>nextset\<close> read the state only in their two guards, so after a
  call that raised they return what they would return after one that did not.
\<close>

lemma parse_row_state:
  "s \<noteq> CLOSED \<Longrightarrow> s' \<noteq> CLOSED \<Longrightarrow>
     parse_row p (c\<lparr>state := s\<rparr>) = parse_row p (c\<lparr>state := s'\<rparr>)"
  by (rule ext) (simp add: parse_row_def description_def closed_def)

lemma parse_row_idx: "parse_row p (c\<lparr>idx := i\<rparr>) = parse_row p c"
  by (rule ext) (simp add: parse_row_def description_def closed_def)

lemma fetch_state:
  assumes "s \<noteq> CLOSED" "s \<noteq> NONE" "s' \<noteq> CLOSED" "s' \<noteq> NONE"
  shows "fst (fetchone p (c\<lparr>state := s\<rparr>)) = fst (fetchone p (c\<lparr>state := s'\<rparr>))"
    and "fst (fetchmany p (c\<lparr>state := s\<rparr>) sz) = fst (fetchmany p (c\<lparr>state := s'\<rparr>) sz)"
    and "fst (fetchall p (c\<lparr>state := s\<rparr>)) = fst (fetchall p (c\<lparr>state := s'\<rparr>))"
    and "fst (nextset (c\<lparr>state := s\<rparr>)) = fst (nextset (c\<lparr>state := s'\<rparr>))"
proof -
  have pr: "parse_row p (c\<lparr>state := s, idx := i\<rparr>) = parse_row p (c\<lparr>state := s', idx := i\<rparr>)"
    for i
    using parse_row_state [OF assms(1) assms(3), of p c] by (simp add: parse_row_idx)
  show "fst (fetchone p (c\<lparr>state := s\<rparr>)) = fst (fetchone p (c\<lparr>state := s'\<rparr>))"
    using assms pr
    by (simp add: fetchone_def closed_def get_next_range_def Let_def
        split: option.split sum.split)
  have fr: "fst (fetch_range p (c\<lparr>state := s\<rparr>) k) = fst (fetch_range p (c\<lparr>state := s'\<rparr>) k)"
    for k
    using pr by (simp add: fetch_range_def get_next_range_def Let_def split: option.split)
  show "fst (fetchmany p (c\<lparr>state := s\<rparr>) sz) = fst (fetchmany p (c\<lparr>state := s'\<rparr>) sz)"
    using assms fr by (simp add: fetchmany_def closed_def split: option.split)
  show "fst (fetchall p (c\<lparr>state := s\<rparr>)) = fst (fetchall p (c\<lparr>state := s'\<rparr>))"
    using assms fr by (simp add: fetchall_def closed_def rowcount_property_def)
  show "fst (nextset (c\<lparr>state := s\<rparr>)) = fst (nextset (c\<lparr>state := s'\<rparr>))"
    using assms
    by (simp add: nextset_def closed_def pop_next_set_def split: prod.split)
qed

lemma execute_Inl:
  assumes "\<not> closed c" and "execute n p c query parameters sp t = (Inl e, c', t')"
  shows "do_execute_request n p c query (params_list parameters) sp t = (Some e, c', t')"
proof -
  obtain r c1 t1
    where d: "do_execute_request n p c query (params_list parameters) sp t = (r, c1, t1)"
    by (cases "do_execute_request n p c query (params_list parameters) sp t")
  show ?thesis
  proof (cases r)
    case None
    from do_execute_request_None [OF d [unfolded None]] have "\<not> closed c1"
      by (auto simp: closed_def)
    with assms d None show ?thesis
      by (simp add: execute_def rowcount_property_def)
  next
    case (Some e1)
    with assms d show ?thesis
      by (simp add: execute_def)
  qed
qed

lemma executemany_Inl:
  assumes "\<not> closed c" and "executemany n p c query pss t = (Inl e, c', t')"
  shows "do_execute_request n p c query pss None t = (Some e, c', t')"
proof -
  obtain r c1 t1 where d: "do_execute_request n p c query pss None t = (r, c1, t1)"
    by (cases "do_execute_request n p c query pss None t")
  show ?thesis
  proof (cases r)
    case None
    from do_execute_request_None [OF d [unfolded None]] have "\<not> closed c1"
      by (auto simp: closed_def)
    with assms d None show ?thesis
      by (simp add: executemany_def rowcount_property_def)
  next
    case (Some e1)
    with assms d show ?thesis
      by (simp add: executemany_def)
  qed
qed

lemmas sample_net_eval =
  sample_net_def sample_request_def int_column_response_def empty_response_def
  failed_response_def request_params_def JSON_OUTPUT_FORMAT_def

lemmas execute_eval =
  execute_def executemany_def params_list_def do_execute_request_def reset_def run_query_def
  except_Exception_def
  raise_if_error_def raise_for_status_def append_query_data_def response_row_set_def
  query_data_row_set_def meta_column_def pop_next_set_def rowcount_property_def closed_def
  new_cursor_def

lemmas fetch_eval =
  fetchone_def fetchmany_def fetchall_def fetch_range_def get_next_range_def parse_row_def
  description_def py_index_def py_slice_def slice_bound_def nextset_def pop_next_set_def
  rowcount_property_def closed_def

text \<open>
  Claim C1 as it is worded, at an exception that is not an \<open>Exception\<close>.  A new cursor
  executes \<open>SELECT 1; SELECT 3\<close>; the first statement is answered and its result set
  buffered; while the answer to the second is awaited the program is interrupted, and the
  request raises \<open>KeyboardInterrupt\<close>.  The handler \<open>except Exception\<close> does not catch it:
  the state is left \<open>NONE\<close>, not \<open>ERROR\<close>, and although the first result set is still in the
  cursor, \<open>fetchall\<close>, \<open>fetchone\<close> and \<open>nextset\<close> raise \<open>QueryNotRunError\<close>.
\<close>

theorem execute_interrupted_counterexample:
  "\<not> closed new_cursor
   \<and> execute sample_net sample_py new_cursor ''SELECT 1; SELECT 3'' None None 0
       = (Inl KeyboardInterrupt, (done_cursor [[R_int 1]])\<lparr>state := NONE\<rparr>, 2)
   \<and> state ((done_cursor [[R_int 1]])\<lparr>state := NONE\<rparr>) \<noteq> ERROR
   \<and> row_sets ((done_cursor [[R_int 1]])\<lparr>state := NONE\<rparr>) = [int_column_set [[R_int 1]]]
   \<and> fst (fetchall sample_py ((done_cursor [[R_int 1]])\<lparr>state := NONE\<rparr>))
       = Inl QueryNotRunError
   \<and> fst (fetchone sample_py ((done_cursor [[R_int 1]])\<lparr>state := NONE\<rparr>))
       = Inl QueryNotRunError
   \<and> fst (nextset ((done_cursor [[R_int 1]])\<lparr>state := NONE\<rparr>)) = Inl QueryNotRunError"
proof -
  let ?c' = "(done_cursor [[R_int 1]])\<lparr>state := NONE\<rparr>"
  have nc: "\<not> closed new_cursor"
    by (simp add: closed_def new_cursor_def)
  have ex: "execute sample_net sample_py new_cursor ''SELECT 1; SELECT 3'' None None 0
      = (Inl KeyboardInterrupt, ?c', 2)"
    by (simp add: execute_eval sample_eval sample_net_eval parse_type_eval done_cursor_def
        int_column_set_def)
  have st: "state ?c' \<noteq> ERROR"
    and rs: "row_sets ?c' = [int_column_set [[R_int 1]]]"
    by (simp_all add: done_cursor_def)
  have f: "fst (fetchall sample_py ?c') = Inl QueryNotRunError"
    "fst (fetchone sample_py ?c') = Inl QueryNotRunError"
    "fst (nextset ?c') = Inl QueryNotRunError"
    by (simp_all add: fetch_eval done_cursor_def)
  from nc ex st rs f show ?thesis
    by simp
qed

text \<open>
  Claim C1, amended: a call of \<open>execute\<close> or \<open>executemany\<close> on a cursor that is not closed
  raises \<open>e\<close> and leaves the cursor \<open>c'\<close>.  Then \<open>e\<close> is the exception of the step that
  failed, unchanged: either \<open>split_format_sql\<close> raised \<open>e\<close>, or the first \<open>k\<close> statements ran
  to the end, leaving the cursor \<open>ck\<close>, and the next statement (its request, the validation
  of its response or its decoding) raised \<open>e\<close>.  The state of \<open>c'\<close> is \<open>ERROR\<close> when \<open>e\<close> is
  an \<open>Exception\<close> and \<open>NONE\<close> when it is not.  In the second case \<open>c'\<close> is \<open>ck\<close> with
  nothing but the state changed: it holds the \<open>k\<close> result sets buffered so far, the first of
  them active at position 0.  When \<open>e\<close> is an \<open>Exception\<close>, \<open>fetchone\<close>, \<open>fetchmany\<close>,
  \<open>fetchall\<close> and \<open>nextset\<close> return on \<open>c'\<close> what they would return had the call ended after
  those \<open>k\<close> statements without an exception; when it is not, each of them raises
  \<open>QueryNotRunError\<close>.
\<close>

theorem execute_error_keeps_results:
  assumes "\<not> closed c"
    and "execute n p c query parameters sp t = (Inl e, c', t') \<and> pss = params_list parameters
         \<or> executemany n p c query pss t = (Inl e, c', t') \<and> sp = None"
  shows "state c' = (if is_Exception e then ERROR else NONE) \<and>
     (split_format_sql p query pss = Inl e
        \<and> c' = (reset c)\<lparr>state := (if is_Exception e then ERROR else NONE)\<rparr>
      \<or> (\<exists>queries k ck tk.
            split_format_sql p query pss = Inr queries \<and> k < length queries
          \<and> run_queries n sp (reset c) (take k queries) t = (None, ck, tk)
          \<and> run_query n sp ck (queries ! k) tk = (Some e, ck, t')
          \<and> c' = ck\<lparr>state := (if is_Exception e then ERROR else NONE)\<rparr>
          \<and> length (row_sets c') = k
          \<and> (0 < k \<longrightarrow> active_set c' = row_sets c' ! 0 \<and> idx c' = 0 \<and> next_set_idx c' = 1)
          \<and> (is_Exception e \<longrightarrow>
                fst (fetchone p c') = fst (fetchone p (ck\<lparr>state := DONE\<rparr>))
              \<and> (\<forall>sz. fst (fetchmany p c' sz) = fst (fetchmany p (ck\<lparr>state := DONE\<rparr>) sz))
              \<and> fst (fetchall p c') = fst (fetchall p (ck\<lparr>state := DONE\<rparr>))
              \<and> fst (nextset c') = fst (nextset (ck\<lparr>state := DONE\<rparr>)))
          \<and> (\<not> is_Exception e \<longrightarrow>
                fst (fetchone p c') = Inl QueryNotRunError
              \<and> (\<forall>sz. fst (fetchmany p c' sz) = Inl QueryNotRunError)
              \<and> fst (fetchall p c') = Inl QueryNotRunError
              \<and> fst (nextset c') = Inl QueryNotRunError)))"
proof -
  let ?s = "if is_Exception e then ERROR else NONE"
  from assms have d: "do_execute_request n p c query pss sp t = (Some e, c', t')"
    using execute_Inl [of c n p query parameters sp t e c' t']
      executemany_Inl [of c n p query pss t e c' t']
    by auto
  from do_execute_request_Some [OF d]
  consider (split) "split_format_sql p query pss = Inl e" "c' = except_Exception (reset c) e"
    | (loop) queries k ck tk where "split_format_sql p query pss = Inr queries"
      "k < length queries" "run_queries n sp (reset c) (take k queries) t = (None, ck, tk)"
      "run_query n sp ck (queries ! k) tk = (Some e, ck, t')" "loading ck"
      "length (row_sets ck) = k" "c' = except_Exception ck e"
    by blast
  then show ?thesis
  proof cases
    case split
    from split(2) have "c' = (reset c)\<lparr>state := ?s\<rparr>"
      by (simp only: except_Exception_loading [OF loading_reset])
    with split(1) show ?thesis by simp
  next
    case loop
    from loop(7) have c': "c' = ck\<lparr>state := ?s\<rparr>"
      by (simp only: except_Exception_loading [OF loop(5)])
    have st: "state c' = ?s" and len: "length (row_sets c') = k"
      using loop(6) c' by simp_all
    have act: "0 < k \<longrightarrow> active_set c' = row_sets c' ! 0 \<and> idx c' = 0 \<and> next_set_idx c' = 1"
      using loop(5,6) c' by (auto simp: loading_def active_set_def)
    have f: "fst (fetchone p c') = fst (fetchone p (ck\<lparr>state := DONE\<rparr>))
        \<and> (\<forall>sz. fst (fetchmany p c' sz) = fst (fetchmany p (ck\<lparr>state := DONE\<rparr>) sz))
        \<and> fst (fetchall p c') = fst (fetchall p (ck\<lparr>state := DONE\<rparr>))
        \<and> fst (nextset c') = fst (nextset (ck\<lparr>state := DONE\<rparr>))"
      if "is_Exception e"
      unfolding c' using that fetch_state [of ERROR DONE] by simp
    have g: "fst (fetchone p c') = Inl QueryNotRunError
        \<and> (\<forall>sz. fst (fetchmany p c' sz) = Inl QueryNotRunError)
        \<and> fst (fetchall p c') = Inl QueryNotRunError
        \<and> fst (nextset c') = Inl QueryNotRunError"
      if "\<not> is_Exception e"
      unfolding c' using that
      by (simp add: fetchone_def fetchmany_def fetchall_def nextset_def closed_def)
    from loop(1-4) c' st len act f g show ?thesis
      by blast
  qed
qed

theorem execute_error_keeps_results_witness:
  "\<not> closed new_cursor
   \<and> execute sample_net sample_py new_cursor ''SELECT 1; SELECT x'' None None 0
       = (Inl (OperationalError (''Error executing query:'' @ [CHR 0x0A] @ ''syntax error'')),
          (done_cursor [[R_int 1]])\<lparr>state := ERROR\<rparr>, 2)
   \<and> is_Exception (OperationalError (''Error executing query:'' @ [CHR 0x0A] @ ''syntax error''))
   \<and> state ((done_cursor [[R_int 1]])\<lparr>state := ERROR\<rparr>) = ERROR
   \<and> row_sets ((done_cursor [[R_int 1]])\<lparr>state := ERROR\<rparr>) = [int_column_set [[R_int 1]]]
   \<and> fst (fetchall sample_py ((done_cursor [[R_int 1]])\<lparr>state := ERROR\<rparr>)) = Inr [[C_int 1]]"
proof -
  let ?c' = "(done_cursor [[R_int 1]])\<lparr>state := ERROR\<rparr>"
  let ?e = "OperationalError (''Error executing query:'' @ [CHR 0x0A] @ ''syntax error'')"
  have nc: "\<not> closed new_cursor"
    by (simp add: closed_def new_cursor_def)
  have ex: "execute sample_net sample_py new_cursor ''SELECT 1; SELECT x'' None None 0
      = (Inl ?e, ?c', 2)"
    by (simp add: execute_eval sample_eval sample_net_eval parse_type_eval done_cursor_def
        int_column_set_def error_executing_query_def)
  have ie: "is_Exception ?e"
    by simp
  from execute_error_keeps_results [OF nc, of sample_net sample_py "''SELECT 1; SELECT x''"
      None None 0 ?e ?c' 2 "[]"] ex ie
  have st: "state ?c' = ERROR"
    by (simp add: params_list_def)
  have rs: "row_sets ?c' = [int_column_set [[R_int 1]]]"
    by (simp add: done_cursor_def)
  have fa: "fst (fetchall sample_py ?c') = Inr [[C_int 1]]"
    by (simp add: fetch_eval done_cursor_def)
  from nc ex ie st rs fa show ?thesis
    by simp
qed

section \<open>Moving through the result sets\<close>










section \<open>The coroutine and the body of \<open>execute\<close>\<close>

text \<open>
  Run with nothing scheduled in between, the parts of the coroutine do what the body of
  \<open>execute\<close> does as the source writes it.
\<close>

lemma complete_raised: "complete n (raised c e t) = (Inl e, except_Exception c e, t)"
  by (simp add: raised_def)

lemma complete_after_validation:
  "complete n (after_validation c task resp t) =
     (case raise_for_status resp of
        Some e \<Rightarrow> (Inl e, except_Exception c e, t)
      | None \<Rightarrow>
          (case append_query_data c resp of
             Inl e \<Rightarrow> (Inl e, except_Exception c e, t)
           | Inr c' \<Rightarrow>
               (case rowcount_property c' of
                  Inl e \<Rightarrow> (Inl e, except_Exception c' e, t)
                | Inr rc \<Rightarrow>
                    complete n (next_query c' (tl (task_queries task)) (task_set_parameters task) t))))"
  by (simp add: after_validation_def complete_raised split: option.split sum.split)

lemma complete_one_query:
  "complete n (Suspended \<lparr>task_queries = q # qs, task_set_parameters = sp,
                           task_phase = Await_request\<rparr>, c, t) =
     (case run_query n sp c q t of
        (Some e, c1, t1) \<Rightarrow> (Inl e, except_Exception c1 e, t1)
      | (None, c1, t1) \<Rightarrow> complete n (next_query c1 qs sp t1))"
proof -
  let ?task = "\<lparr>task_queries = q # qs, task_set_parameters = sp, task_phase = Await_request\<rparr>"
  obtain r t1 where req: "request n t (request_params n sp) q = (r, t1)"
    by (cases "request n t (request_params n sp) q")
  show ?thesis
  proof (cases r)
    case (Inl e)
    with req show ?thesis
      by (simp add: execute_resume_def run_query_def complete_raised)
  next
    case (Inr resp)
    note resp = this
    consider (s500) "status_code resp = 500"
      | (s403) "status_code resp = 403"
      | (s503) "status_code resp = 503 \<or> status_code resp = 404"
      | (other) "status_code resp \<noteq> 500" "status_code resp \<noteq> 403" "status_code resp \<noteq> 503"
        "status_code resp \<noteq> 404"
      by blast
    then show ?thesis
    proof cases
      case s500
      with req resp show ?thesis
        by (simp add: execute_resume_def run_query_def raise_if_error_def complete_raised)
    next
      case s403
      obtain a t2 where db: "is_db_available n t1 = (a, t2)"
        by (cases "is_db_available n t1")
      from s403 req resp db show ?thesis
        by (cases a)
          (simp_all add: execute_resume_def run_query_def raise_if_error_def complete_raised)
    next
      case s503
      obtain a t2 where en: "is_engine_running n t1 = (a, t2)"
        by (cases "is_engine_running n t1")
      from s503 have ne: "status_code resp \<noteq> 500" "status_code resp \<noteq> 403"
        by auto
      from s503 ne req resp en show ?thesis
        by (cases a)
          (auto simp: execute_resume_def run_query_def raise_if_error_def complete_raised
            complete_after_validation split: option.split sum.split)
    next
      case other
      with req resp show ?thesis
        by (simp add: execute_resume_def run_query_def raise_if_error_def
            complete_after_validation split: option.split sum.split)
    qed
  qed
qed

lemma complete_next_query:
  "complete n (next_query c qs sp t) =
     (case run_queries n sp c qs t of
        (Some e, c1, t1) \<Rightarrow> (Inl e, except_Exception c1 e, t1)
      | (None, c1, t1) \<Rightarrow> (rowcount_property (c1\<lparr>state := DONE\<rparr>), c1\<lparr>state := DONE\<rparr>, t1))"
proof (induction qs arbitrary: c t)
  case Nil
  show ?case by (simp add: next_query_def Let_def)
next
  case (Cons q qs)
  have "next_query c (q # qs) sp t
      = (Suspended \<lparr>task_queries = q # qs, task_set_parameters = sp,
                     task_phase = Await_request\<rparr>, c, t)"
    by (simp add: next_query_def)
  then show ?case
    by (simp only: complete_one_query) (simp add: Cons.IH split: prod.split option.split)
qed

lemma complete_do_execute_request:
  "complete n (do_execute_request_start p c query pss sp t) =
     (case do_execute_request n p c query pss sp t of
        (Some e, c', t') \<Rightarrow> (Inl e, c', t')
      | (None, c', t') \<Rightarrow> (rowcount_property c', c', t'))"
  by (simp add: do_execute_request_start_def do_execute_request_def Let_def complete_raised
      complete_next_query split: sum.split prod.split option.split)

text \<open>
  \<open>execute\<close> and \<open>executemany\<close> are their coroutines, started and resumed to the end.
\<close>

lemma execute_complete:
  "execute n p c query parameters sp t = complete n (execute_start p c query parameters sp t)"
  "executemany n p c query pss t = complete n (executemany_start p c query pss t)"
  by (simp_all add: execute_def executemany_def execute_start_def executemany_start_def
      complete_do_execute_request)

text \<open>
  What one part of the coroutine does to the cursor, whatever state it finds it in: a part
  that ends in an \<open>Exception\<close> leaves the state \<open>ERROR\<close>, a part that ends in another
  exception leaves the state it found, a part that returns leaves \<open>DONE\<close>, and every part
  keeps a \<open>paired\<close> cursor \<open>paired\<close>.
\<close>

lemma paired_state [simp]: "paired (c\<lparr>state := s\<rparr>) = paired c"
  by (simp add: paired_def active_set_def)

lemma paired_idx [simp]: "paired (c\<lparr>idx := j\<rparr>) = paired c"
  by (simp add: paired_def active_set_def)

lemma paired_arraysize [simp]: "paired (c\<lparr>arraysize := v\<rparr>) = paired c"
  by (simp add: paired_def active_set_def)

lemma append_query_data_state: "append_query_data c resp = Inr c' \<Longrightarrow> state c' = state c"
  by (auto simp: append_query_data_def Let_def pop_next_set_def split: sum.splits prod.splits
      if_splits)

lemma next_query_result:
  assumes "next_query c qs sp t = (pr, c', t')"
  shows "t' = t \<and> (pr = Finished (Inr (rowcount c)) \<and> c' = c\<lparr>state := DONE\<rparr>
                  \<or> (\<exists>task. pr = Suspended task) \<and> c' = c)"
  using assms
  by (auto simp: next_query_def Let_def rowcount_property_def closed_def split: if_splits)

lemma after_validation_result:
  assumes "after_validation c task resp t = (pr, c', t')"
  shows "(paired c \<longrightarrow> paired c')
     \<and> (\<forall>e. pr = Finished (Inl e) \<longrightarrow> state c' = (if is_Exception e then ERROR else state c))
     \<and> (\<forall>rc. pr = Finished (Inr rc) \<longrightarrow> state c' = DONE)
     \<and> (\<forall>task'. pr = Suspended task' \<longrightarrow> state c' = state c)"
proof (cases "raise_for_status resp")
  case (Some e)
  with assms show ?thesis
    by (auto simp: after_validation_def raised_def except_Exception_def)
next
  case None
  note ok = this
  show ?thesis
  proof (cases "append_query_data c resp")
    case (Inl e)
    with assms ok show ?thesis
      by (auto simp: after_validation_def raised_def except_Exception_def)
  next
    case (Inr c1)
    note p = append_query_data_paired [OF Inr] and s = append_query_data_state [OF Inr]
    show ?thesis
    proof (cases "rowcount_property c1")
      case (Inl e)
      with assms ok Inr p s show ?thesis
        by (auto simp: after_validation_def raised_def except_Exception_def)
    next
      case rc: (Inr rc)
      with assms ok Inr
      have "next_query c1 (tl (task_queries task)) (task_set_parameters task) t = (pr, c', t')"
        by (simp add: after_validation_def)
      from next_query_result [OF this] p s show ?thesis
        by auto
    qed
  qed
qed

lemma execute_resume_result:
  assumes "execute_resume n c task (t :: 't) = (pr, c', t')"
  shows "(paired c \<longrightarrow> paired c')
     \<and> (\<forall>e. pr = Finished (Inl e) \<longrightarrow> state c' = (if is_Exception e then ERROR else state c))
     \<and> (\<forall>rc. pr = Finished (Inr rc) \<longrightarrow> state c' = DONE)
     \<and> (\<forall>task'. pr = Suspended task' \<longrightarrow> state c' = state c)"
proof -
  define P where "P = (\<lambda>x :: progress \<times> cursor \<times> 't.
      (paired c \<longrightarrow> paired (fst (snd x)))
    \<and> (\<forall>e. fst x = Finished (Inl e) \<longrightarrow>
          state (fst (snd x)) = (if is_Exception e then ERROR else state c))
    \<and> (\<forall>rc. fst x = Finished (Inr rc) \<longrightarrow> state (fst (snd x)) = DONE)
    \<and> (\<forall>task'. fst x = Suspended task' \<longrightarrow> state (fst (snd x)) = state c))"
  have r: "P (raised c e t1)" for e t1
    by (simp add: P_def raised_def except_Exception_def)
  have a: "P (after_validation c task resp t1)" for resp t1
  proof -
    obtain pr1 c1 t2 where eq: "after_validation c task resp t1 = (pr1, c1, t2)"
      by (cases "after_validation c task resp t1")
    from after_validation_result [OF eq] show ?thesis
      unfolding eq P_def by simp
  qed
  have q: "P (next_query c qs sp t1)" for qs sp t1
  proof -
    obtain pr1 c1 t2 where eq: "next_query c qs sp t1 = (pr1, c1, t2)"
      by (cases "next_query c qs sp t1")
    from next_query_result [OF eq] show ?thesis
      unfolding eq P_def by auto
  qed
  have s: "P (Suspended task1, c, t1)" for task1 t1
    by (simp add: P_def)
  have "P (execute_resume n c task t)"
    unfolding execute_resume_def
    by (simp add: r a q s split: phase.split list.split prod.split sum.split)
  with assms show ?thesis
    by (simp add: P_def)
qed

lemma execute_start_result:
  assumes "execute_start p c query parameters sp t = (pr, c', t')
           \<or> executemany_start p c query pss t = (pr, c', t')"
  shows "(paired c \<longrightarrow> paired c')
     \<and> (\<forall>e. pr = Finished (Inl e) \<and> \<not> closed c \<longrightarrow>
           state c' = (if is_Exception e then ERROR else NONE))
     \<and> (\<forall>rc. pr = Finished (Inr rc) \<longrightarrow> state c' = DONE)
     \<and> (\<forall>task'. pr = Suspended task' \<longrightarrow> state c' = NONE)"
proof (cases "closed c")
  case True
  with assms show ?thesis
    by (auto simp: execute_start_def executemany_start_def)
next
  case False
  with assms obtain ps1 sp1
    where d: "do_execute_request_start p c query ps1 sp1 t = (pr, c', t')"
    by (auto simp: execute_start_def executemany_start_def)
  show ?thesis
  proof (cases "split_format_sql p query ps1")
    case (Inl e)
    with d have "c' = except_Exception (reset c) e" "pr = Finished (Inl e)"
      by (simp_all add: do_execute_request_start_def Let_def raised_def)
    moreover have "state (reset c) = NONE"
      by (simp add: reset_def)
    ultimately show ?thesis
      using paired_reset [of c] by (simp add: except_Exception_def)
  next
    case (Inr queries)
    with d have "next_query (reset c) queries sp1 t = (pr, c', t')"
      by (simp add: do_execute_request_start_def Let_def)
    moreover have "state (reset c) = NONE"
      by (simp add: reset_def)
    ultimately show ?thesis
      using next_query_result [of "reset c" queries sp1 t pr c' t'] paired_reset [of c]
      by auto
  qed
qed

section \<open>Cursors of a connection\<close>

text \<open>What each method of a cursor leaves of it.\<close>

lemma fetch_range_keeps:
  "paired (snd (fetch_range p c sz)) = paired c"
  "state (snd (fetch_range p c sz)) = state c"
  by (simp_all add: fetch_range_def get_next_range_def Let_def split: option.split)

lemma fetch_keeps:
  "paired (snd (fetchone p c)) = paired c"
  "state (snd (fetchone p c)) = state c"
  "paired (snd (fetchmany p c sz)) = paired c"
  "state (snd (fetchmany p c sz)) = state c"
  "paired (snd (fetchall p c)) = paired c"
  "state (snd (fetchall p c)) = state c"
  by (simp_all add: fetchone_def fetchmany_def fetchall_def fetch_range_keeps
      get_next_range_def rowcount_property_def Let_def split: option.split sum.split)

lemma nextset_keeps:
  "paired c \<Longrightarrow> paired (snd (nextset c))"
  "state (snd (nextset c)) = state c"
proof -
  show "state (snd (nextset c)) = state c"
    by (simp add: nextset_def pop_next_set_def split: prod.split)
  show "paired (snd (nextset c))" if "paired c"
  proof (cases "closed c \<or> state c = NONE \<or> length (row_sets c) \<le> next_set_idx c")
    case True
    with that show ?thesis
      by (auto simp: nextset_def pop_next_set_def)
  next
    case False
    then have lt: "next_set_idx c < length (row_sets c)" by simp
    with that have "paired_set (row_sets c ! next_set_idx c)"
      by (simp add: paired_def list_all_length)
    with that False show ?thesis
      by (auto simp: nextset_def pop_next_set_def paired_def active_set_def paired_set_def
          split: prod.split)
  qed
qed

text \<open>The invariant of the world is kept by every piece that runs.\<close>

lemma world_inv_new_connection: "world_inv (new_connection t)"
  by (simp add: world_inv_def new_connection_def)

lemma paired_new_cursor: "paired new_cursor"
  by (simp add: paired_def new_cursor_def active_set_def paired_set_def)

lemma world_inv_Connection_cursor:
  assumes "world_inv w"
  shows "world_inv (snd (Connection_cursor w))"
proof (cases "conn_is_closed w")
  case True
  with assms show ?thesis by (simp add: Connection_cursor_def)
next
  case False
  with assms paired_new_cursor show ?thesis
    unfolding world_inv_def Connection_cursor_def
    by (auto simp: less_Suc_eq split: if_splits)
qed

lemma world_inv_on_cursor:
  assumes "world_inv w"
    and "\<And>c t. paired c \<Longrightarrow> paired (fst (f c t))"
  shows "world_inv (on_cursor w i f)"
proof (cases "cursor_objs w i")
  case None
  with assms(1) show ?thesis by (simp add: on_cursor_def)
next
  case (Some c)
  obtain c' t' where f: "f c (conn_client w) = (c', t')"
    by (cases "f c (conn_client w)")
  from assms(1) Some have c: "i < next_obj w" "paired c"
    by (auto simp: world_inv_def)
  from assms(2) [OF c(2), of "conn_client w"] f have c': "paired c'"
    by simp
  from assms(1) Some f c(1) c' show ?thesis
    unfolding world_inv_def on_cursor_def by auto
qed

lemma world_inv_on_coroutine:
  assumes "world_inv w"
    and "\<And>c t. paired c \<Longrightarrow> paired (fst (snd (f c t)))"
  shows "world_inv (on_coroutine w i f)"
proof (cases "cursor_objs w i")
  case None
  with assms(1) show ?thesis by (simp add: on_coroutine_def)
next
  case (Some c)
  obtain pr c' t' where f: "f c (conn_client w) = (pr, c', t')"
    by (cases "f c (conn_client w)")
  from assms(1) Some have c: "i < next_obj w" "paired c"
    by (auto simp: world_inv_def)
  from assms(2) [OF c(2), of "conn_client w"] f have c': "paired c'"
    by simp
  from assms(1) Some f c(1) c' show ?thesis
    unfolding world_inv_def on_coroutine_def by auto
qed

lemma world_inv_Cursor_close:
  assumes "world_inv w"
  shows "world_inv (Cursor_close w i)"
proof (cases "cursor_objs w i")
  case None
  with assms show ?thesis by (simp add: Cursor_close_def)
next
  case (Some c)
  with assms show ?thesis
    unfolding world_inv_def Cursor_close_def remove_cursor_def by auto
qed

lemma world_inv_close_all: "world_inv w \<Longrightarrow> world_inv (close_all w cursors)"
  by (induction cursors arbitrary: w) (simp_all add: world_inv_Cursor_close)

lemma paired_execute_start:
  "paired c \<Longrightarrow> paired (fst (snd (execute_start p c query parameters sp t)))"
  "paired c \<Longrightarrow> paired (fst (snd (executemany_start p c query pss t)))"
proof -
  assume pc: "paired c"
  obtain pr c' t' where e: "execute_start p c query parameters sp t = (pr, c', t')"
    by (cases "execute_start p c query parameters sp t")
  with execute_start_result [of p c query parameters sp t pr c' t'] pc
  show "paired (fst (snd (execute_start p c query parameters sp t)))"
    by simp
  obtain pr c' t' where e: "executemany_start p c query pss t = (pr, c', t')"
    by (cases "executemany_start p c query pss t")
  with execute_start_result [of p c query None None t pr c' t' pss] pc
  show "paired (fst (snd (executemany_start p c query pss t)))"
    by simp
qed

lemma paired_execute_resume:
  "paired c \<Longrightarrow> paired (fst (snd (execute_resume n c task t)))"
proof -
  assume pc: "paired c"
  obtain pr c' t' where e: "execute_resume n c task t = (pr, c', t')"
    by (cases "execute_resume n c task t")
  with execute_resume_result [OF e] pc show ?thesis
    by simp
qed

lemma world_inv_step:
  assumes "world_inv w"
  shows "world_inv (step n p w call)"
proof (cases call)
  case Call_cursor
  with assms show ?thesis by (simp add: world_inv_Connection_cursor)
next
  case (Call_close i)
  with assms show ?thesis by (simp add: world_inv_Cursor_close)
next
  case (Call_execute i query parameters sp)
  with assms show ?thesis
    by (auto intro!: world_inv_on_coroutine simp: paired_execute_start)
next
  case (Call_executemany i query pss)
  with assms show ?thesis
    by (auto intro!: world_inv_on_coroutine simp: paired_execute_start)
next
  case (Resume i)
  with assms show ?thesis
    by (auto intro!: world_inv_on_coroutine simp: paired_execute_resume split: option.split)
next
  case (Call_fetchone i)
  with assms show ?thesis
    by (auto intro!: world_inv_on_cursor simp: fetch_keeps)
next
  case (Call_fetchmany i sz)
  with assms show ?thesis
    by (auto intro!: world_inv_on_cursor simp: fetch_keeps)
next
  case (Call_fetchall i)
  with assms show ?thesis
    by (auto intro!: world_inv_on_cursor simp: fetch_keeps)
next
  case (Call_nextset i)
  with assms show ?thesis
    by (auto intro!: world_inv_on_cursor simp: nextset_keeps)
next
  case (Call_set_arraysize i v)
  with assms show ?thesis
    by (auto intro!: world_inv_on_cursor)
next
  case Call_aclose
  from world_inv_close_all [OF assms, of "conn_cursors w"]
  have "world_inv ((close_all w (conn_cursors w))\<lparr>closing := closing w + 1\<rparr>)"
    by (simp add: world_inv_def)
  with assms Call_aclose show ?thesis
    by (simp add: Connection_aclose_start_def)
next
  case Resume_aclose
  with assms show ?thesis
    by (auto simp: Connection_aclose_resume_def world_inv_def split: prod.split option.split)
next
  case Call_commit
  with assms show ?thesis by simp
qed

lemma world_inv_run: "world_inv w \<Longrightarrow> world_inv (run n p w calls)"
  unfolding run_def by (induction calls arbitrary: w) (simp_all add: world_inv_step)

section \<open>Closing a connection\<close>

lemma cursor_objs_Cursor_close:
  "cursor_objs (Cursor_close w i) j =
     (if j = i then map_option (\<lambda>c. c\<lparr>state := CLOSED\<rparr>) (cursor_objs w j) else cursor_objs w j)"
  by (cases "cursor_objs w i") (auto simp: Cursor_close_def remove_cursor_def)

lemma Cursor_close_fields:
  "conn_is_closed (Cursor_close w i) = conn_is_closed w"
  "conn_client (Cursor_close w i) = conn_client w"
  by (cases "cursor_objs w i"; simp add: Cursor_close_def remove_cursor_def)+

lemma close_all_fields:
  "conn_is_closed (close_all w cursors) = conn_is_closed w"
  "conn_client (close_all w cursors) = conn_client w"
  by (induction cursors arbitrary: w) (simp_all add: Cursor_close_fields)

text \<open>The loop over the copy of the list closes the cursors of the list and no other.\<close>

lemma cursor_objs_close_all:
  "cursor_objs (close_all w cursors) j =
     (if j \<in> set cursors then map_option (\<lambda>c. c\<lparr>state := CLOSED\<rparr>) (cursor_objs w j)
      else cursor_objs w j)"
proof (induction cursors arbitrary: w)
  case Nil
  show ?case by simp
next
  case (Cons i cursors)
  show ?case
    by (cases "cursor_objs w j")
      (auto simp: Cons.IH cursor_objs_Cursor_close option.map_comp comp_def)
qed

text \<open>
  What holds of \<open>_aclose\<close> in whatever order the event loop runs the pieces: its first part
  closes every cursor that is in the connection's list when it runs; once the flag
  \<open>_is_closed\<close> is set it stays set, creating a cursor raises \<open>ConnectionClosedError\<close>, and
  closing again returns at once and changes nothing.
\<close>

lemma aclose_start_closes_listed:
  assumes "\<not> conn_is_closed w" and "i \<in> set (conn_cursors w)" and "cursor_objs w i = Some c"
  shows "cursor_objs (Connection_aclose_start w) i = Some (c\<lparr>state := CLOSED\<rparr>)"
  using assms by (simp add: Connection_aclose_start_def cursor_objs_close_all)

lemma closed_connection:
  assumes "conn_is_closed w"
  shows "Connection_cursor w = (Inl ConnectionClosedError, w)"
    and "Connection_aclose_start w = w"
    and "Connection_commit w = Some ConnectionClosedError"
  using assms
  by (simp_all add: Connection_cursor_def Connection_aclose_start_def Connection_commit_def)

lemma on_cursor_conn_is_closed: "conn_is_closed (on_cursor w i f) = conn_is_closed w"
  by (simp add: on_cursor_def split: option.split prod.split)

lemma on_coroutine_conn_is_closed: "conn_is_closed (on_coroutine w i f) = conn_is_closed w"
  by (simp add: on_coroutine_def split: option.split prod.split)

lemma conn_is_closed_step: "conn_is_closed w \<Longrightarrow> conn_is_closed (step n p w call)"
  by (cases call)
    (simp_all add: closed_connection Cursor_close_fields on_cursor_conn_is_closed
      on_coroutine_conn_is_closed Connection_aclose_resume_def
      split: option.split prod.split)

text \<open>
  An \<open>execute\<close> that was suspended when its cursor was closed, and that ends after that,
  leaves the cursor open again (in state \<open>DONE\<close> or \<open>ERROR\<close>), unless it ends in an
  exception that is not an \<open>Exception\<close>.
\<close>

lemma execute_resume_reopens:
  assumes "execute_resume n c task t = (Finished r, c', t')"
    and "\<forall>e. r = Inl e \<longrightarrow> is_Exception e"
  shows "\<not> closed c'"
  using execute_resume_result [OF assms(1)] assms(2)
  by (cases r) (simp_all add: closed_def)

text \<open>
  When nothing races with it, closing a connection does close every cursor.  The cursors
  that are not closed are all in the connection's list (\<open>registered\<close>) as long as no
  coroutine is resumed on a cursor that was closed while it was suspended; and in such a
  world an \<open>_aclose\<close> of an open connection whose two parts run one right after the other,
  and whose \<open>self._client.aclose()\<close> returns, leaves every cursor of the connection closed,
  so that \<open>execute\<close> and \<open>executemany\<close> on it raise \<open>CursorClosedError\<close> and change nothing.
\<close>

lemma registered_new_connection: "registered (new_connection t)"
  by (simp add: registered_def new_connection_def)

lemma registered_on_cursor:
  assumes "registered w"
    and "\<And>c t. cursor_objs w i = Some c \<Longrightarrow> state c = CLOSED \<Longrightarrow> state (fst (f c t)) = CLOSED"
  shows "registered (on_cursor w i f)"
proof (cases "cursor_objs w i")
  case None
  with assms(1) show ?thesis by (simp add: on_cursor_def)
next
  case (Some c)
  obtain c' t' where f: "f c (conn_client w) = (c', t')"
    by (cases "f c (conn_client w)")
  from assms(2) [OF Some, of "conn_client w"] f have "state c = CLOSED \<Longrightarrow> state c' = CLOSED"
    by simp
  with assms(1) Some f show ?thesis
    unfolding registered_def on_cursor_def by auto
qed

lemma registered_on_coroutine:
  assumes "registered w"
    and "\<And>c t. cursor_objs w i = Some c \<Longrightarrow> state c = CLOSED \<Longrightarrow>
           state (fst (snd (f c t))) = CLOSED"
  shows "registered (on_coroutine w i f)"
proof (cases "cursor_objs w i")
  case None
  with assms(1) show ?thesis by (simp add: on_coroutine_def)
next
  case (Some c)
  obtain pr c' t' where f: "f c (conn_client w) = (pr, c', t')"
    by (cases "f c (conn_client w)")
  from assms(2) [OF Some, of "conn_client w"] f have "state c = CLOSED \<Longrightarrow> state c' = CLOSED"
    by simp
  with assms(1) Some f show ?thesis
    unfolding registered_def on_coroutine_def by auto
qed

lemma execute_start_closed:
  "state c = CLOSED \<Longrightarrow> state (fst (snd (execute_start p c query parameters sp t))) = CLOSED"
  "state c = CLOSED \<Longrightarrow> state (fst (snd (executemany_start p c query pss t))) = CLOSED"
  by (simp_all add: execute_start_def executemany_start_def closed_def)

lemma registered_step:
  assumes "registered w"
    and "\<And>i c. call = Resume i \<Longrightarrow> cursor_objs w i = Some c \<Longrightarrow> \<not> closed c"
  shows "registered (step n p w call)"
proof (cases call)
  case Call_cursor
  with assms(1) show ?thesis
    by (auto simp: registered_def Connection_cursor_def split: if_splits)
next
  case (Call_close i)
  with assms(1) show ?thesis
    by (cases "cursor_objs w i")
      (auto simp: registered_def Cursor_close_def remove_cursor_def split: if_splits)
next
  case (Call_execute i query parameters sp)
  with assms(1) show ?thesis
    by (auto intro!: registered_on_coroutine simp: execute_start_closed)
next
  case (Call_executemany i query pss)
  with assms(1) show ?thesis
    by (auto intro!: registered_on_coroutine simp: execute_start_closed)
next
  case (Resume i)
  show ?thesis
  proof (cases "in_flight w i")
    case None
    with Resume assms(1) show ?thesis by simp
  next
    case (Some task)
    have "registered (on_coroutine w i (\<lambda>c t. execute_resume n c task t))"
      using assms(1)
    proof (rule registered_on_coroutine)
      fix c t
      assume "cursor_objs w i = Some c" "state c = CLOSED"
      with assms(2) [OF Resume] show "state (fst (snd (execute_resume n c task t))) = CLOSED"
        by (simp add: closed_def)
    qed
    with Resume Some show ?thesis by simp
  qed
next
  case (Call_fetchone i)
  with assms(1) show ?thesis
    by (auto intro!: registered_on_cursor simp: fetch_keeps)
next
  case (Call_fetchmany i sz)
  with assms(1) show ?thesis
    by (auto intro!: registered_on_cursor simp: fetch_keeps)
next
  case (Call_fetchall i)
  with assms(1) show ?thesis
    by (auto intro!: registered_on_cursor simp: fetch_keeps)
next
  case (Call_nextset i)
  with assms(1) show ?thesis
    by (auto intro!: registered_on_cursor simp: nextset_keeps)
next
  case (Call_set_arraysize i v)
  with assms(1) show ?thesis
    by (auto intro!: registered_on_cursor)
next
  case Call_aclose
  have "state c = CLOSED" if "cursor_objs (close_all w (conn_cursors w)) i = Some c" for i c
  proof (cases "i \<in> set (conn_cursors w)")
    case True
    with that show ?thesis
      by (auto simp: cursor_objs_close_all)
  next
    case False
    with that have "cursor_objs w i = Some c"
      by (simp add: cursor_objs_close_all)
    with assms(1) False show ?thesis
      by (auto simp: registered_def)
  qed
  then have "registered ((close_all w (conn_cursors w))\<lparr>closing := closing w + 1\<rparr>)"
    by (auto simp: registered_def)
  with assms(1) Call_aclose show ?thesis
    by (simp add: Connection_aclose_start_def)
next
  case Resume_aclose
  with assms(1) show ?thesis
    by (auto simp: Connection_aclose_resume_def registered_def split: prod.split option.split)
next
  case Call_commit
  with assms(1) show ?thesis by simp
qed

lemma aclose_uninterrupted:
  assumes "registered w"
    and "\<not> conn_is_closed w"
    and "Connection_aclose_resume n (Connection_aclose_start w) = (None, w')"
  shows "conn_is_closed w'"
    and "dom (cursor_objs w') = dom (cursor_objs w)"
    and "cursor_objs w' i = Some c \<Longrightarrow>
           closed c
         \<and> execute n p c query parameters sp t = (Inl CursorClosedError, c, t)
         \<and> executemany n p c query pss t = (Inl CursorClosedError, c, t)"
proof -
  show closed': "conn_is_closed w'"
    using assms(2,3)
    by (auto simp: Connection_aclose_start_def Connection_aclose_resume_def
        split: if_splits prod.splits option.splits)
  have objs: "cursor_objs w' = cursor_objs (Connection_aclose_start w)"
    using assms(3)
    by (auto simp: Connection_aclose_resume_def split: if_splits prod.splits option.splits)
  show "dom (cursor_objs w') = dom (cursor_objs w)"
    unfolding objs
    by (auto simp: Connection_aclose_start_def cursor_objs_close_all dom_def)
  show "closed c
       \<and> execute n p c query parameters sp t = (Inl CursorClosedError, c, t)
       \<and> executemany n p c query pss t = (Inl CursorClosedError, c, t)"
    if c: "cursor_objs w' i = Some c"
  proof -
    note open_conn = assms(2)
    have "state c = CLOSED"
    proof (cases "i \<in> set (conn_cursors w)")
      case True
      with c open_conn show ?thesis
        unfolding objs by (auto simp: Connection_aclose_start_def cursor_objs_close_all)
    next
      case False
      with c open_conn have "cursor_objs w i = Some c"
        unfolding objs by (simp add: Connection_aclose_start_def cursor_objs_close_all)
      with assms(1) False show ?thesis
        by (auto simp: registered_def)
    qed
    then show ?thesis
      by (simp add: closed_def execute_def executemany_def)
  qed
qed

lemmas world_eval =
  run_def new_connection_def Connection_cursor_def on_cursor_def on_coroutine_def task_of_def
  unlocked_def Cursor_close_def remove_cursor_def Connection_aclose_start_def
  Connection_aclose_resume_def

lemmas coroutine_eval =
  execute_start_def executemany_start_def do_execute_request_start_def next_query_def
  raised_def execute_resume_def after_validation_def except_Exception_def params_list_def
  reset_def raise_for_status_def append_query_data_def response_row_set_def
  query_data_row_set_def meta_column_def pop_next_set_def rowcount_property_def closed_def
  new_cursor_def

text \<open>
  Claim C2 in two programs that run something while the connection is being closed.

  In the first, \<open>aclose()\<close> is called on a new connection and is waiting in
  \<open>await self._client.aclose()\<close> when another task calls \<open>cursor()\<close>; then \<open>aclose()\<close> goes on
  and returns.  The flag \<open>_is_closed\<close> was still \<open>False\<close> when the cursor was created, so
  the cursor was created and put in the list, after the loop that closes the cursors of the
  list.  The close has completed, and this cursor of the connection is not closed:
  \<open>execute\<close> on it passes the test of \<open>check_not_closed\<close>, resets the cursor and goes on
  to \<open>await self._client.request(...)\<close>; it does not raise \<open>CursorClosedError\<close>.

  In the second, a cursor is waiting for the answer to \<open>SELECT 1\<close> when \<open>aclose()\<close> is called
  and runs to its end, closing the cursor on its way; then the answer arrives.  The
  \<open>execute\<close> buffers the result set, its log line reads the property \<open>rowcount\<close>, which raises
  \<open>CursorClosedError\<close> on the closed cursor, and the handler sets the state to \<open>ERROR\<close>.  The
  close has completed, and the cursor is not closed either.
\<close>

theorem connection_close_leaves_open_cursors:
  "run sample_net sample_py (new_connection 0) [Call_aclose, Call_cursor, Resume_aclose]
     = \<lparr>conn_client = 0, conn_cursors = [0], conn_is_closed = True,
        cursor_objs = [0 \<mapsto> new_cursor], next_obj = 1, in_flight = Map.empty, closing = 0\<rparr>
   \<and> \<not> closed new_cursor
   \<and> execute_start sample_py new_cursor ''SELECT 1'' None None (0 :: nat)
       = (Suspended \<lparr>task_queries = [''SELECT 1''], task_set_parameters = None,
                      task_phase = Await_request\<rparr>, new_cursor, 0)
   \<and> run sample_net sample_py (new_connection 0)
        [Call_cursor, Call_execute 0 ''SELECT 1'' None None, Call_aclose, Resume_aclose, Resume 0]
     = \<lparr>conn_client = 1, conn_cursors = [], conn_is_closed = True,
        cursor_objs = [0 \<mapsto> (done_cursor [[R_int 1]])\<lparr>state := ERROR\<rparr>], next_obj = 1,
        in_flight = Map.empty, closing = 0\<rparr>
   \<and> \<not> closed ((done_cursor [[R_int 1]])\<lparr>state := ERROR\<rparr>)"
proof -
  have a: "run sample_net sample_py (new_connection 0) [Call_aclose, Call_cursor, Resume_aclose]
      = \<lparr>conn_client = 0, conn_cursors = [0], conn_is_closed = True,
         cursor_objs = [0 \<mapsto> new_cursor], next_obj = 1, in_flight = Map.empty, closing = 0\<rparr>"
    by (simp add: world_eval sample_net_def)
  have b: "\<not> closed new_cursor"
    by (simp add: closed_def new_cursor_def)
  have c: "execute_start sample_py new_cursor ''SELECT 1'' None None (0 :: nat)
      = (Suspended \<lparr>task_queries = [''SELECT 1''], task_set_parameters = None,
                     task_phase = Await_request\<rparr>, new_cursor, 0)"
    by (simp add: coroutine_eval sample_eval)
  have d: "run sample_net sample_py (new_connection 0)
        [Call_cursor, Call_execute 0 ''SELECT 1'' None None, Call_aclose, Resume_aclose, Resume 0]
      = \<lparr>conn_client = 1, conn_cursors = [], conn_is_closed = True,
         cursor_objs = [0 \<mapsto> (done_cursor [[R_int 1]])\<lparr>state := ERROR\<rparr>], next_obj = 1,
         in_flight = Map.empty, closing = 0\<rparr>"
    by (simp add: world_eval coroutine_eval sample_eval sample_net_eval parse_type_eval
        done_cursor_def int_column_set_def)
  have e: "\<not> closed ((done_cursor [[R_int 1]])\<lparr>state := ERROR\<rparr>)"
    by (simp add: closed_def)
  from a b c d e show ?thesis
    by (intro conjI)
qed

section \<open>Fetching rows\<close>

lemma slice_bound_min: "slice_bound (int k) (min i (int k)) = slice_bound (int k) i"
  by (simp add: slice_bound_def min_def max_def)

lemma py_slice_none: "py_slice rs i (min (i + 0) (int (length rs))) = []"
  by (simp add: py_slice_def Let_def slice_bound_min)

lemma py_slice_rest:
  "0 \<le> i \<Longrightarrow> i \<le> int (length rs) \<Longrightarrow> py_slice rs i (int (length rs)) = drop (nat i) rs"
  by (simp add: py_slice_def Let_def slice_bound_def)

text \<open>Asking for at least as many rows as remain gives the rows that remain.\<close>

lemma fetch_range_rest:
  assumes "rows c = Some rs" "0 \<le> idx c" "idx c \<le> int (length rs)"
    and "int (length rs) - idx c \<le> sz"
  shows "fetch_range p c sz
         = (map_raise (parse_row p c) (drop (nat (idx c)) rs), c\<lparr>idx := int (length rs)\<rparr>)"
proof -
  from assms(4) have "min (idx c + sz) (int (length rs)) = int (length rs)"
    by simp
  with assms(1-3) show ?thesis
    by (simp add: fetch_range_def get_next_range_def Let_def py_slice_rest parse_row_idx)
qed

lemma paired_rows: "paired c \<Longrightarrow> descriptions c \<noteq> None \<Longrightarrow> \<exists>rs. rows c = Some rs"
  by (auto simp: paired_def active_set_def paired_set_def)

text \<open>
  Claim C3: \<open>c\<close> is a cursor of a connection, in a world reached from a new connection by
  any sequence of calls and of resumed coroutines, in any order; it is open and has executed
  a query.  Then:
  \<^item> with the position at the end of the active rows, \<open>fetchone\<close> returns \<open>None\<close> and leaves
    the cursor as it is;
  \<^item> \<open>fetchmany\<close> asked for at least as many rows as remain returns the remaining rows,
    parsed (fewer than asked for, none at the end), and moves the position to the end; the
    same holds of \<open>fetchall\<close> when the row count is at least the number of remaining rows;
  \<^item> with a row count of 0 and columns that are not \<open>None\<close>, \<open>fetchall\<close> returns the empty
    list;
  \<^item> with rows that are \<open>None\<close>, each of \<open>fetchone\<close>, \<open>fetchmany\<close> and \<open>fetchall\<close> raises
    the \<open>DataError\<close> ``no rows to fetch''.
\<close>

theorem fetch_at_the_end:
  assumes "cursor_objs (run n p (new_connection t0) calls) i = Some c"
    and "state c \<noteq> CLOSED" and "state c \<noteq> NONE"
  shows "(\<forall>rs. rows c = Some rs \<and> idx c = int (length rs) \<longrightarrow> fetchone p c = (Inr None, c))
     \<and> (\<forall>rs sz. rows c = Some rs \<and> 0 \<le> idx c \<and> idx c \<le> int (length rs)
                \<and> int (length rs) - idx c \<le> sz \<longrightarrow>
            fetchmany p c (Some sz)
              = (map_raise (parse_row p c) (drop (nat (idx c)) rs), c\<lparr>idx := int (length rs)\<rparr>)
          \<and> (\<forall>res. fst (fetchmany p c (Some sz)) = Inr res \<longrightarrow>
                 length res = length rs - nat (idx c)))
     \<and> (\<forall>rs. rows c = Some rs \<and> 0 \<le> idx c \<and> idx c \<le> int (length rs)
                \<and> int (length rs) - idx c \<le> rowcount c \<longrightarrow>
            fetchall p c
              = (map_raise (parse_row p c) (drop (nat (idx c)) rs), c\<lparr>idx := int (length rs)\<rparr>))
     \<and> (rowcount c = 0 \<and> descriptions c \<noteq> None \<longrightarrow> fst (fetchall p c) = Inr [])
     \<and> (rows c = None \<longrightarrow>
            fst (fetchone p c) = Inl (DataError NoRowsToFetch)
          \<and> (\<forall>sz. fst (fetchmany p c sz) = Inl (DataError NoRowsToFetch))
          \<and> fst (fetchall p c) = Inl (DataError NoRowsToFetch))"
proof -
  have "world_inv (run n p (new_connection t0) calls)"
    by (rule world_inv_run) (rule world_inv_new_connection)
  with assms(1) have pc: "paired c"
    by (auto simp: world_inv_def)
  have one: "fetchone p c = (Inr None, c)" if "rows c = Some rs" "idx c = int (length rs)" for rs
    using that assms(2,3) by (simp add: fetchone_def closed_def get_next_range_def Let_def)
  have many: "fetchmany p c (Some sz)
        = (map_raise (parse_row p c) (drop (nat (idx c)) rs), c\<lparr>idx := int (length rs)\<rparr>)"
    if "rows c = Some rs" "0 \<le> idx c" "idx c \<le> int (length rs)" "int (length rs) - idx c \<le> sz"
    for rs sz
    using assms(2,3) fetch_range_rest [OF that] by (simp add: fetchmany_def closed_def)
  have count: "length res = length rs - nat (idx c)"
    if "rows c = Some rs" "0 \<le> idx c" "idx c \<le> int (length rs)" "int (length rs) - idx c \<le> sz"
      "fst (fetchmany p c (Some sz)) = Inr res"
    for rs sz res
    using many [OF that(1-4)] that(5) map_raise_length [of "parse_row p c" _ res] by simp
  have every: "fetchall p c
        = (map_raise (parse_row p c) (drop (nat (idx c)) rs), c\<lparr>idx := int (length rs)\<rparr>)"
    if "rows c = Some rs" "0 \<le> idx c" "idx c \<le> int (length rs)"
      "int (length rs) - idx c \<le> rowcount c"
    for rs
    using assms(2,3) fetch_range_rest [OF that]
    by (simp add: fetchall_def closed_def rowcount_property_def)
  have zero: "fst (fetchall p c) = Inr []" if "rowcount c = 0" "descriptions c \<noteq> None"
  proof -
    from paired_rows [OF pc that(2)] obtain rs where "rows c = Some rs" ..
    with that(1) assms(2,3) show ?thesis
      using py_slice_none [of rs "idx c"]
      by (simp add: fetchall_def closed_def rowcount_property_def fetch_range_def
          get_next_range_def Let_def)
  qed
  have none: "fst (fetchone p c) = Inl (DataError NoRowsToFetch)"
    "\<And>sz. fst (fetchmany p c sz) = Inl (DataError NoRowsToFetch)"
    "fst (fetchall p c) = Inl (DataError NoRowsToFetch)"
    if "rows c = None"
    using that assms(2,3)
    by (simp_all add: fetchone_def fetchmany_def fetchall_def closed_def rowcount_property_def
        fetch_range_def get_next_range_def)
  from one many count every zero none show ?thesis
    by blast
qed

text \<open>
  Three programs on the sample engine, each with one cursor that executes one statement and
  waits for its answer; the fourth fetches a row after that.
\<close>

lemma sample_runs:
  "run sample_net sample_py (new_connection 0)
     [Call_cursor, Call_execute 0 ''SELECT 1'' None None, Resume 0]
   = \<lparr>conn_client = 1, conn_cursors = [0], conn_is_closed = False,
      cursor_objs = [0 \<mapsto> done_cursor [[R_int 1]]], next_obj = 1, in_flight = Map.empty,
      closing = 0\<rparr>"
  "run sample_net sample_py (new_connection 0)
     [Call_cursor, Call_execute 0 ''SELECT 1 LIMIT 0'' None None, Resume 0]
   = \<lparr>conn_client = 1, conn_cursors = [0], conn_is_closed = False,
      cursor_objs = [0 \<mapsto> done_cursor []], next_obj = 1, in_flight = Map.empty,
      closing = 0\<rparr>"
  "run sample_net sample_py (new_connection 0)
     [Call_cursor, Call_execute 0 ''INSERT INTO t VALUES (1)'' None None, Resume 0]
   = \<lparr>conn_client = 1, conn_cursors = [0], conn_is_closed = False,
      cursor_objs = [0 \<mapsto> new_cursor\<lparr>state := DONE, row_sets := [(- 1, None, None)],
                                     next_set_idx := 1\<rparr>],
      next_obj = 1, in_flight = Map.empty, closing = 0\<rparr>"
  "run sample_net sample_py (new_connection 0)
     [Call_cursor, Call_execute 0 ''SELECT 1'' None None, Resume 0, Call_fetchone 0]
   = \<lparr>conn_client = 1, conn_cursors = [0], conn_is_closed = False,
      cursor_objs = [0 \<mapsto> (done_cursor [[R_int 1]])\<lparr>idx := 1\<rparr>], next_obj = 1,
      in_flight = Map.empty, closing = 0\<rparr>"
  by (simp_all add: world_eval coroutine_eval sample_eval sample_net_eval parse_type_eval
      done_cursor_def int_column_set_def fetch_eval)

theorem fetch_at_the_end_witness:
  "cursor_objs (run sample_net sample_py (new_connection 0)
       [Call_cursor, Call_execute 0 ''SELECT 1'' None None, Resume 0]) 0 = Some (done_cursor [[R_int 1]])
   \<and> fetchmany sample_py (done_cursor [[R_int 1]]) (Some 5)
       = (Inr [[C_int 1]], (done_cursor [[R_int 1]])\<lparr>idx := 1\<rparr>)
   \<and> cursor_objs (run sample_net sample_py (new_connection 0)
       [Call_cursor, Call_execute 0 ''SELECT 1'' None None, Resume 0, Call_fetchone 0]) 0
       = Some ((done_cursor [[R_int 1]])\<lparr>idx := 1\<rparr>)
   \<and> fetchone sample_py ((done_cursor [[R_int 1]])\<lparr>idx := 1\<rparr>)
       = (Inr None, (done_cursor [[R_int 1]])\<lparr>idx := 1\<rparr>)
   \<and> cursor_objs (run sample_net sample_py (new_connection 0)
       [Call_cursor, Call_execute 0 ''SELECT 1 LIMIT 0'' None None, Resume 0]) 0 = Some (done_cursor [])
   \<and> fst (fetchall sample_py (done_cursor [])) = Inr []
   \<and> cursor_objs (run sample_net sample_py (new_connection 0)
       [Call_cursor, Call_execute 0 ''INSERT INTO t VALUES (1)'' None None, Resume 0]) 0
       = Some (new_cursor\<lparr>state := DONE, row_sets := [(- 1, None, None)], next_set_idx := 1\<rparr>)
   \<and> fst (fetchall sample_py
            (new_cursor\<lparr>state := DONE, row_sets := [(- 1, None, None)], next_set_idx := 1\<rparr>))
       = Inl (DataError NoRowsToFetch)"
proof -
  let ?c1 = "done_cursor [[R_int 1]]"
  let ?c2 = "(done_cursor [[R_int 1]])\<lparr>idx := 1\<rparr>"
  let ?c3 = "done_cursor []"
  let ?c4 = "new_cursor\<lparr>state := DONE, row_sets := [(- 1, None, None)], next_set_idx := 1\<rparr>"
  have w1: "cursor_objs (run sample_net sample_py (new_connection 0)
      [Call_cursor, Call_execute 0 ''SELECT 1'' None None, Resume 0]) 0 = Some ?c1"
    by (simp add: sample_runs)
  have w2: "cursor_objs (run sample_net sample_py (new_connection 0)
      [Call_cursor, Call_execute 0 ''SELECT 1'' None None, Resume 0, Call_fetchone 0]) 0 = Some ?c2"
    by (simp add: sample_runs)
  have w3: "cursor_objs (run sample_net sample_py (new_connection 0)
      [Call_cursor, Call_execute 0 ''SELECT 1 LIMIT 0'' None None, Resume 0]) 0 = Some ?c3"
    by (simp add: sample_runs)
  have w4: "cursor_objs (run sample_net sample_py (new_connection 0)
      [Call_cursor, Call_execute 0 ''INSERT INTO t VALUES (1)'' None None, Resume 0]) 0 = Some ?c4"
    by (simp add: sample_runs)
  have s1: "state ?c1 \<noteq> CLOSED" "state ?c1 \<noteq> NONE" "rows ?c1 = Some [[R_int 1]]"
    "idx ?c1 = 0"
    and s2: "state ?c2 \<noteq> CLOSED" "state ?c2 \<noteq> NONE" "rows ?c2 = Some [[R_int 1]]"
    "idx ?c2 = 1"
    and s3: "state ?c3 \<noteq> CLOSED" "state ?c3 \<noteq> NONE" "rowcount ?c3 = 0"
    "descriptions ?c3 \<noteq> None"
    and s4: "state ?c4 \<noteq> CLOSED" "state ?c4 \<noteq> NONE" "rows ?c4 = None"
    by (simp_all add: done_cursor_def new_cursor_def)
  have row: "map_raise (parse_row sample_py ?c1) (drop (nat 0) [[R_int 1]]) = Inr [[C_int 1]]"
    by (simp add: parse_row_def description_def closed_def done_cursor_def)
  from fetch_at_the_end [OF w1 s1(1,2)] s1(3,4) row
  have f1: "fetchmany sample_py ?c1 (Some 5) = (Inr [[C_int 1]], ?c1\<lparr>idx := 1\<rparr>)"
    by simp
  from fetch_at_the_end [OF w2 s2(1,2)] s2(3,4)
  have f2: "fetchone sample_py ?c2 = (Inr None, ?c2)"
    by simp
  from fetch_at_the_end [OF w3 s3(1,2)] s3(3,4)
  have f3: "fst (fetchall sample_py ?c3) = Inr []"
    by blast
  from fetch_at_the_end [OF w4 s4(1,2)] s4(3)
  have f4: "fst (fetchall sample_py ?c4) = Inl (DataError NoRowsToFetch)"
    by blast
  from w1 f1 w2 f2 w3 f3 w4 f4 show ?thesis
    by (intro conjI)
qed

section \<open>The fetch position\<close>

text \<open>
  With a size that is not negative the position stays between 0 and the number of active
  rows: \<open>_get_next_range\<close> clamps the new position from above.
\<close>

lemma fetch_range_position:
  assumes "rows c = Some rs" "0 \<le> idx c" "idx c \<le> int (length rs)" "0 \<le> sz"
  shows "rows (snd (fetch_range p c sz)) = Some rs
         \<and> idx c \<le> idx (snd (fetch_range p c sz))
         \<and> idx (snd (fetch_range p c sz)) \<le> int (length rs)"
  using assms by (simp add: fetch_range_def get_next_range_def Let_def)

text \<open>
  Claim C9 at a negative size.  A cursor has executed \<open>SELECT 1\<close> and holds one row, at
  position 0.  \<open>fetchmany(-1)\<close> returns no row and leaves the position at \<open>-1\<close>:
  \<open>_get_next_range\<close> takes \<open>min(0 + (-1), 1)\<close> as the new position and does not clamp it
  from below.  A \<open>fetchone\<close> after it reads \<open>rows[-1]\<close> and so returns the last row.
\<close>

theorem fetchmany_negative_size_position:
  "cursor_objs (run sample_net sample_py (new_connection 0)
       [Call_cursor, Call_execute 0 ''SELECT 1'' None None, Resume 0]) 0 = Some (done_cursor [[R_int 1]])
   \<and> fetchmany sample_py (done_cursor [[R_int 1]]) (Some (- 1))
       = (Inr [], (done_cursor [[R_int 1]])\<lparr>idx := - 1\<rparr>)
   \<and> idx (snd (fetchmany sample_py (done_cursor [[R_int 1]]) (Some (- 1)))) < 0
   \<and> fetchone sample_py ((done_cursor [[R_int 1]])\<lparr>idx := - 1\<rparr>)
       = (Inr (Some [C_int 1]), (done_cursor [[R_int 1]])\<lparr>idx := 0\<rparr>)"
proof -
  have w: "cursor_objs (run sample_net sample_py (new_connection 0)
      [Call_cursor, Call_execute 0 ''SELECT 1'' None None, Resume 0]) 0 = Some (done_cursor [[R_int 1]])"
    by (simp add: sample_runs)
  have m: "fetchmany sample_py (done_cursor [[R_int 1]]) (Some (- 1))
      = (Inr [], (done_cursor [[R_int 1]])\<lparr>idx := - 1\<rparr>)"
    by (simp add: fetch_eval done_cursor_def Let_def)
  have o: "fetchone sample_py ((done_cursor [[R_int 1]])\<lparr>idx := - 1\<rparr>)
      = (Inr (Some [C_int 1]), (done_cursor [[R_int 1]])\<lparr>idx := 0\<rparr>)"
    by (simp add: fetch_eval done_cursor_def Let_def)
  from w m o show ?thesis
    by simp
qed

end
